theory Spec2Isabelle
  imports Complex_Main
begin

section \<open>Conventions of the embedding\<close>

text \<open>
  The development embeds the geometry core of RevoDraw: the drawable-area model
  and the line clustering and slot assignment of \<^verbatim>\<open>detect_drawing_area.py\<close>, the one-shot
  fit \<^verbatim>\<open>scale_paths_to_area\<close> of \<^verbatim>\<open>image_draw.py\<close>, and the per-layer transform of
  \<^verbatim>\<open>draw\<close> together with the erase/undo logic of the page script in \<^verbatim>\<open>revodraw.py\<close>.

  Python integers are \<open>int\<close>. Exceptions are values of the type \<open>error\<close>, and a function
  that can raise returns \<open>error + 'a\<close>.
\<close>

datatype error = ZeroDivisionError | ValueError | IndexError | TypeError

subsection \<open>Floating-point numbers\<close>

text \<open>
  A Python float is a double. Every finite double is a real number, so the values are
  of type \<open>real\<close>; comparisons, \<^verbatim>\<open>min\<close>, negation and \<^verbatim>\<open>int()\<close> are exact on them. The
  arithmetic of the doubles rounds, and which double a result is rounded to is not
  fixed here: the functions of the two fits and of slot assignment take the arithmetic
  as a parameter \<open>fl\<close>, and every statement about them holds for every \<open>fl\<close>, or for
  every \<open>fl\<close> that is as accurate as the doubles are, so for the arithmetic of the
  machine as well. \<open>fl_lit\<close> gives the double that a decimal literal
  of the source denotes, the four operations are the rounded operations, and
  \<open>fl_radians\<close>, \<open>fl_cos\<close> and \<open>fl_sin\<close> stand for the functions of \<^verbatim>\<open>math\<close>.
  An integer operand is converted first; the conversion is exact below \<open>2^53\<close>, and
  integers beyond that, infinities and NaN are outside the model. The mean of a cluster
  of lines and the numbers of the page script are modelled in exact arithmetic.
\<close>

record float_ops =
  fl_lit :: "real \<Rightarrow> real"
  fl_add :: "real \<Rightarrow> real \<Rightarrow> real"
  fl_sub :: "real \<Rightarrow> real \<Rightarrow> real"
  fl_mul :: "real \<Rightarrow> real \<Rightarrow> real"
  fl_div :: "real \<Rightarrow> real \<Rightarrow> real"
  fl_radians :: "real \<Rightarrow> real"
  fl_cos :: "real \<Rightarrow> real"
  fl_sin :: "real \<Rightarrow> real"

text \<open>
  The arithmetic that never rounds, with which the concrete inputs below are evaluated.
  The inputs are chosen so that the doubles give the same integers there: the scale
  factors are small integers, the sums and differences are integers or halves of
  integers, and the product of a decimal literal and a card dimension rounds to the
  integer that the exact product is.
\<close>

definition exact_ops :: float_ops where
  "exact_ops =
     \<lparr> fl_lit = (\<lambda>c. c),
       fl_add = (\<lambda>a b. a + b),
       fl_sub = (\<lambda>a b. a - b),
       fl_mul = (\<lambda>a b. a * b),
       fl_div = (\<lambda>a b. a / b),
       fl_radians = (\<lambda>r. r * pi / 180),
       fl_cos = cos,
       fl_sin = sin \<rparr>"

text \<open>
  The accuracy of an arithmetic whose operations return the double nearest to the exact
  result, as the operations of the machine do on doubles, stated for results up to
  \<open>2^64\<close>: a result of magnitude at least 1 is off by at most its \<open>2^52\<close>-th part (half
  of that, in fact), a smaller one by at most \<open>1 / 2^52\<close>.
\<close>

definition accurate :: "float_ops \<Rightarrow> bool" where
  "accurate fl =
     ((\<forall>a b. \<bar>a + b\<bar> \<le> 2 ^ 64 \<longrightarrow> \<bar>fl_add fl a b - (a + b)\<bar> \<le> max 1 \<bar>a + b\<bar> / 2 ^ 52) \<and>
      (\<forall>a b. \<bar>a - b\<bar> \<le> 2 ^ 64 \<longrightarrow> \<bar>fl_sub fl a b - (a - b)\<bar> \<le> max 1 \<bar>a - b\<bar> / 2 ^ 52) \<and>
      (\<forall>a b. \<bar>a * b\<bar> \<le> 2 ^ 64 \<longrightarrow> \<bar>fl_mul fl a b - a * b\<bar> \<le> max 1 \<bar>a * b\<bar> / 2 ^ 52) \<and>
      (\<forall>a b. b \<noteq> 0 \<and> \<bar>a / b\<bar> \<le> 2 ^ 64 \<longrightarrow>
             \<bar>fl_div fl a b - a / b\<bar> \<le> max 1 \<bar>a / b\<bar> / 2 ^ 52))"

text \<open>Python's \<^verbatim>\<open>int(x)\<close> on a float truncates towards zero.\<close>

definition py_int :: "real \<Rightarrow> int" where
  "py_int x = (if 0 \<le> x then \<lfloor>x\<rfloor> else \<lceil>x\<rceil>)"

text \<open>Python's true division \<^verbatim>\<open>a / b\<close> raises on a zero divisor.\<close>

definition py_truediv :: "float_ops \<Rightarrow> real \<Rightarrow> real \<Rightarrow> error + real" where
  "py_truediv fl a b = (if b = 0 then Inl ZeroDivisionError else Inr (fl_div fl a b))"

text \<open>Sequencing of computations that can raise: the first error ends the computation.\<close>

definition bind_result :: "error + 'a \<Rightarrow> ('a \<Rightarrow> error + 'b) \<Rightarrow> error + 'b" where
  "bind_result r f = (case r of Inl e \<Rightarrow> Inl e | Inr v \<Rightarrow> f v)"

type_synonym point = "int \<times> int"
type_synonym path = "point list"

section \<open>The drawable-area model (\<^verbatim>\<open>DrawingArea\<close>)\<close>

text \<open>
  The field \<^verbatim>\<open>top\<close> of the dataclass is called \<open>top_a\<close> here, since \<open>top\<close> is the greatest
  element of a lattice in HOL. The dataclass checks nothing on construction: any eight
  integers make an instance.
\<close>

record DrawingArea =
  top_a :: int
  left :: int
  right :: int
  bottom :: int
  cutout_left :: int
  cutout_top :: int
  top_excl_right :: int
  top_excl_bottom :: int

definition is_inside :: "DrawingArea \<Rightarrow> int \<Rightarrow> int \<Rightarrow> bool" where
  "is_inside a x y =
     (if \<not> (left a \<le> x \<and> x \<le> right a \<and> top_a a \<le> y \<and> y \<le> bottom a) then False
      else if x \<le> top_excl_right a \<and> y \<le> top_excl_bottom a then False
      else if x \<ge> cutout_left a \<and> y \<ge> cutout_top a then False
      else True)"

text \<open>
  The properties \<^verbatim>\<open>width\<close> and \<^verbatim>\<open>height\<close> of the area; the plain names are the fields
  of \<^verbatim>\<open>ImagePaths\<close> below.
\<close>

definition area_width :: "DrawingArea \<Rightarrow> int" where
  "area_width a = right a - left a"

definition area_height :: "DrawingArea \<Rightarrow> int" where
  "area_height a = bottom a - top_a a"

text \<open>Python's \<^verbatim>\<open>//\<close> on integers is floor division, as \<open>div\<close> on \<open>int\<close> is.\<close>

definition center :: "DrawingArea \<Rightarrow> int \<times> int" where
  "center a =
     (let main_left = max (left a) (top_excl_right a);
          main_top = max (top_a a) (top_excl_bottom a);
          cx = main_left + (cutout_left a - main_left) div 2;
          cy = main_top + (bottom a - main_top) div 2
      in (cx, cy))"

definition get_safe_bounds :: "DrawingArea \<Rightarrow> int \<Rightarrow> DrawingArea" where
  "get_safe_bounds a margin =
     \<lparr> top_a = top_a a + margin,
       left = left a + margin,
       right = right a - margin,
       bottom = bottom a - margin,
       cutout_left = cutout_left a - margin,
       cutout_top = cutout_top a - margin,
       top_excl_right = top_excl_right a + margin,
       top_excl_bottom = top_excl_bottom a + margin \<rparr>"

definition get_usable_rect :: "DrawingArea \<Rightarrow> int \<Rightarrow> int \<times> int \<times> int \<times> int" where
  "get_usable_rect a margin =
     (max (left a) (top_excl_right a) + margin,
      max (top_a a) (top_excl_bottom a) + margin,
      cutout_left a - margin,
      bottom a - margin)"

text \<open>
  Vocabulary for statements about the model. The two exclusion-membership tests are the
  ones \<^verbatim>\<open>is_inside\<close> applies; \<open>area_invariant\<close> is the invariant the data model asks of
  an area (each exclusion corner strictly inside the outer rectangle).
\<close>

definition in_top_excl :: "DrawingArea \<Rightarrow> int \<Rightarrow> int \<Rightarrow> bool" where
  "in_top_excl a x y = (x \<le> top_excl_right a \<and> y \<le> top_excl_bottom a)"

definition in_cutout :: "DrawingArea \<Rightarrow> int \<Rightarrow> int \<Rightarrow> bool" where
  "in_cutout a x y = (x \<ge> cutout_left a \<and> y \<ge> cutout_top a)"

definition in_outer :: "DrawingArea \<Rightarrow> int \<Rightarrow> int \<Rightarrow> bool" where
  "in_outer a x y = (left a \<le> x \<and> x \<le> right a \<and> top_a a \<le> y \<and> y \<le> bottom a)"

definition area_invariant :: "DrawingArea \<Rightarrow> bool" where
  "area_invariant a =
     (left a < top_excl_right a \<and> top_excl_right a < right a \<and>
      top_a a < top_excl_bottom a \<and> top_excl_bottom a < bottom a \<and>
      left a < cutout_left a \<and> cutout_left a < right a \<and>
      top_a a < cutout_top a \<and> cutout_top a < bottom a)"

text \<open>
  A rectangle \<open>(l, t, r, b)\<close> with inclusive integer bounds; its extent product, and
  whether every one of its integer points is drawable in an area.
\<close>

definition rect_size :: "int \<times> int \<times> int \<times> int \<Rightarrow> int" where
  "rect_size q = (case q of (l, t, r, b) \<Rightarrow> (r - l) * (b - t))"

definition rect_drawable :: "DrawingArea \<Rightarrow> int \<times> int \<times> int \<times> int \<Rightarrow> bool" where
  "rect_drawable a q =
     (case q of (l, t, r, b) \<Rightarrow> \<forall>x \<in> {l..r}. \<forall>y \<in> {t..b}. is_inside a x y)"

text \<open>The area of the specification's concrete scenario.\<close>

definition scenario_area :: DrawingArea where
  "scenario_area =
     \<lparr> top_a = 0, left = 0, right = 1000, bottom = 2000,
       cutout_left = 700, cutout_top = 1200,
       top_excl_right = 200, top_excl_bottom = 150 \<rparr>"

section \<open>Line clustering and slot assignment (\<^verbatim>\<open>detect_drawing_area.py\<close>)\<close>

text \<open>A detected line is a pair of an integer position and a strength (a float).\<close>

type_synonym line = "int \<times> real"










text \<open>
  \<^verbatim>\<open>max(candidates, key=...)\<close> raises \<^verbatim>\<open>ValueError\<close> on an empty list and returns the
  first element whose key is maximal: the running maximum is replaced only by a
  strictly greater element.
\<close>

fun max_loop :: "('a \<Rightarrow> real) \<Rightarrow> 'a \<Rightarrow> 'a list \<Rightarrow> 'a" where
  "max_loop key best [] = best"
| "max_loop key best (x # xs) = max_loop key (if key x > key best then x else best) xs"

definition py_max_key :: "('a \<Rightarrow> real) \<Rightarrow> 'a list \<Rightarrow> error + 'a" where
  "py_max_key key xs = (case xs of [] \<Rightarrow> Inl ValueError | x # xs' \<Rightarrow> Inr (max_loop key x xs'))"

text \<open>
  The nested function \<^verbatim>\<open>find_boundary_line\<close> of \<^verbatim>\<open>detect_boundary\<close>. The two limits of
  the band are the rounded products \<^verbatim>\<open>region_start * card_dim\<close> and
  \<^verbatim>\<open>region_end * card_dim\<close>, with which the integer position is compared.
\<close>

definition find_boundary_line ::
  "float_ops \<Rightarrow> line list \<Rightarrow> real \<Rightarrow> real \<Rightarrow> int \<Rightarrow> error + int option" where
  "find_boundary_line fl clusters region_start region_end card_dim =
     (let candidates =
            filter (\<lambda>(p, l). fl_mul fl region_start (real_of_int card_dim) \<le> real_of_int p
                              \<and> real_of_int p \<le> fl_mul fl region_end (real_of_int card_dim))
              clusters
      in if candidates = [] then Inr None
         else (case py_max_key snd candidates of
                 Inl e \<Rightarrow> Inl e
               | Inr best \<Rightarrow> Inr (Some (fst best))))"








section \<open>The one-shot fit (\<^verbatim>\<open>scale_paths_to_area\<close>)\<close>

record ImagePaths =
  paths :: "path list"
  width :: int
  height :: int

text \<open>
  The scale factors and the offsets that \<^verbatim>\<open>scale_paths_to_area\<close> computes before its
  loop, as \<open>(scale_x, scale_y, offset_x, offset_y)\<close>. The two divisions raise
  \<^verbatim>\<open>ZeroDivisionError\<close> on a zero image width or height. In
  \<^verbatim>\<open>area.left + margin + (available_width - scaled_width) / 2\<close> the first sum is a sum
  of integers.
\<close>

definition fit_params ::
  "float_ops \<Rightarrow> ImagePaths \<Rightarrow> DrawingArea \<Rightarrow> int \<Rightarrow> bool \<Rightarrow> bool
     \<Rightarrow> error + (real \<times> real \<times> real \<times> real)" where
  "fit_params fl image_paths area margin maintain_aspect use_full_area =
     (let available_width =
            (if use_full_area then right area - left area - 2 * margin
             else cutout_left area - left area - 2 * margin);
          available_height =
            (if use_full_area then bottom area - top_a area - 2 * margin
             else bottom area - top_a area - 2 * margin);
          src_width = width image_paths;
          src_height = height image_paths
      in
      bind_result
        (if maintain_aspect
         then bind_result
                (py_truediv fl (real_of_int available_width) (real_of_int src_width)) (\<lambda>qx.
              bind_result
                (py_truediv fl (real_of_int available_height) (real_of_int src_height)) (\<lambda>qy.
                Inr (min qx qy, min qx qy)))
         else bind_result
                (py_truediv fl (real_of_int available_width) (real_of_int src_width)) (\<lambda>qx.
              bind_result
                (py_truediv fl (real_of_int available_height) (real_of_int src_height)) (\<lambda>qy.
                Inr (qx, qy))))
        (\<lambda>(scale_x, scale_y).
           let scaled_width = fl_mul fl (real_of_int src_width) scale_x;
               scaled_height = fl_mul fl (real_of_int src_height) scale_y;
               offset_x = fl_add fl (real_of_int (left area + margin))
                            (fl_div fl (fl_sub fl (real_of_int available_width) scaled_width) 2);
               offset_y = fl_add fl (real_of_int (top_a area + margin))
                            (fl_div fl (fl_sub fl (real_of_int available_height) scaled_height) 2)
           in Inr (scale_x, scale_y, offset_x, offset_y)))"

text \<open>\<^verbatim>\<open>(int(offset_x + x * scale_x), int(offset_y + y * scale_y))\<close>.\<close>

definition place_point :: "float_ops \<Rightarrow> real \<times> real \<times> real \<times> real \<Rightarrow> point \<Rightarrow> point" where
  "place_point fl prm p =
     (case prm of (scale_x, scale_y, offset_x, offset_y) \<Rightarrow>
        case p of (x, y) \<Rightarrow>
          (py_int (fl_add fl offset_x (fl_mul fl (real_of_int x) scale_x)),
           py_int (fl_add fl offset_y (fl_mul fl (real_of_int y) scale_y))))"

text \<open>
  The inner loop, shared by both fitting paths of the program: every point of the path is
  transformed and appended to \<^verbatim>\<open>scaled_path\<close> when \<^verbatim>\<open>is_inside\<close> holds of it. The outer
  loop appends the result to \<^verbatim>\<open>scaled_paths\<close> when it has at least two points.
\<close>

fun scale_path_loop :: "DrawingArea \<Rightarrow> (point \<Rightarrow> point) \<Rightarrow> path \<Rightarrow> path \<Rightarrow> path" where
  "scale_path_loop area f scaled_path [] = scaled_path"
| "scale_path_loop area f scaled_path (p # rest) =
     (case f p of (new_x, new_y) \<Rightarrow>
        scale_path_loop area f
          (if is_inside area new_x new_y then scaled_path @ [(new_x, new_y)] else scaled_path)
          rest)"

fun scale_paths_loop ::
  "DrawingArea \<Rightarrow> (point \<Rightarrow> point) \<Rightarrow> path list \<Rightarrow> path list \<Rightarrow> path list" where
  "scale_paths_loop area f scaled_paths [] = scaled_paths"
| "scale_paths_loop area f scaled_paths (path # rest) =
     (let scaled_path = scale_path_loop area f [] path
      in scale_paths_loop area f
           (if length scaled_path \<ge> 2 then scaled_paths @ [scaled_path] else scaled_paths)
           rest)"

definition scale_paths_to_area ::
  "float_ops \<Rightarrow> ImagePaths \<Rightarrow> DrawingArea \<Rightarrow> int \<Rightarrow> bool \<Rightarrow> bool \<Rightarrow> error + path list" where
  "scale_paths_to_area fl image_paths area margin maintain_aspect use_full_area =
     (if paths image_paths = [] then Inr []
      else bind_result (fit_params fl image_paths area margin maintain_aspect use_full_area)
             (\<lambda>prm. Inr (scale_paths_loop area (place_point fl prm) [] (paths image_paths))))"

section \<open>The per-layer transform (\<^verbatim>\<open>draw\<close> in \<^verbatim>\<open>revodraw.py\<close>)\<close>

text \<open>
  A layer of the request, with the defaults of \<^verbatim>\<open>layer.get\<close> already applied. Points are
  integer pairs; offsets, scales and the rotation (in degrees) are numbers.
\<close>

record layer =
  layer_paths :: "path list"
  offset_x :: real
  offset_y :: real
  scale_x :: real
  scale_y :: real
  rotation :: real
  flip_h :: bool
  flip_v :: bool

text \<open>\<^verbatim>\<open>min\<close> and \<^verbatim>\<open>max\<close> over a generator raise \<^verbatim>\<open>ValueError\<close> when it is empty.\<close>

definition py_min :: "int list \<Rightarrow> error + int" where
  "py_min xs = (case xs of [] \<Rightarrow> Inl ValueError | x # rest \<Rightarrow> Inr (fold min rest x))"

definition py_max :: "int list \<Rightarrow> error + int" where
  "py_max xs = (case xs of [] \<Rightarrow> Inl ValueError | x # rest \<Rightarrow> Inr (fold max rest x))"

text \<open>\<^verbatim>\<open>v or 1\<close> on an integer.\<close>

definition or_one :: "int \<Rightarrow> int" where
  "or_one v = (if v = 0 then 1 else v)"

text \<open>
  The available rectangle of \<^verbatim>\<open>draw\<close>, with its fixed margin of 20, as
  \<open>(avail_w, avail_h, center_x, center_y)\<close>.
\<close>

definition draw_available :: "float_ops \<Rightarrow> DrawingArea \<Rightarrow> int \<times> int \<times> real \<times> real" where
  "draw_available fl drawing_area =
     (let avail_left = max (left drawing_area) (top_excl_right drawing_area) + 20;
          avail_top = max (top_a drawing_area) (top_excl_bottom drawing_area) + 20;
          avail_right = cutout_left drawing_area - 20;
          avail_bottom = bottom drawing_area - 20;
          avail_w = avail_right - avail_left;
          avail_h = avail_bottom - avail_top;
          center_x = fl_add fl (real_of_int avail_left) (fl_div fl (real_of_int avail_w) 2);
          center_y = fl_add fl (real_of_int avail_top) (fl_div fl (real_of_int avail_h) 2)
      in (avail_w, avail_h, center_x, center_y))"

text \<open>
  The bounds of a layer's points and what \<^verbatim>\<open>draw\<close> derives from them, as
  \<open>(path_w, path_h, path_center_x, path_center_y, base_scale)\<close>.
\<close>

definition layer_bounds ::
  "float_ops \<Rightarrow> int \<Rightarrow> int \<Rightarrow> path list \<Rightarrow> error + (int \<times> int \<times> real \<times> real \<times> real)" where
  "layer_bounds fl avail_w avail_h pths =
     bind_result (py_min (map fst (concat pths))) (\<lambda>min_x.
     bind_result (py_min (map snd (concat pths))) (\<lambda>min_y.
     bind_result (py_max (map fst (concat pths))) (\<lambda>max_x.
     bind_result (py_max (map snd (concat pths))) (\<lambda>max_y.
       let path_w = or_one (max_x - min_x);
           path_h = or_one (max_y - min_y);
           path_center_x = fl_add fl (real_of_int min_x) (fl_div fl (real_of_int path_w) 2);
           path_center_y = fl_add fl (real_of_int min_y) (fl_div fl (real_of_int path_h) 2)
       in bind_result (py_truediv fl (real_of_int avail_w) (real_of_int path_w)) (\<lambda>qx.
          bind_result (py_truediv fl (real_of_int avail_h) (real_of_int path_h)) (\<lambda>qy.
            Inr (path_w, path_h, path_center_x, path_center_y, min qx qy)))))))"

text \<open>
  The closure \<^verbatim>\<open>transform_point\<close>: the point relative to the centre of the bounds is
  flipped, rotated (only when the rotation is not 0), scaled and moved to the centre of
  the available rectangle plus the layer's offset, then truncated.
\<close>

definition transform_point ::
  "float_ops \<Rightarrow> real \<Rightarrow> real \<Rightarrow> real \<Rightarrow> real \<Rightarrow> real \<Rightarrow> layer \<Rightarrow> point \<Rightarrow> point" where
  "transform_point fl center_x center_y pcx pcy bs lay p =
     (case p of (px, py) \<Rightarrow>
        let x0 = fl_sub fl (real_of_int px) pcx;
            y0 = fl_sub fl (real_of_int py) pcy;
            x1 = (if flip_h lay then - x0 else x0);
            y1 = (if flip_v lay then - y0 else y0);
            rad = fl_radians fl (rotation lay);
            cos_r = fl_cos fl rad;
            sin_r = fl_sin fl rad;
            x2 = (if rotation lay \<noteq> 0
                  then fl_sub fl (fl_mul fl x1 cos_r) (fl_mul fl y1 sin_r) else x1);
            y2 = (if rotation lay \<noteq> 0
                  then fl_add fl (fl_mul fl x1 sin_r) (fl_mul fl y1 cos_r) else y1);
            x3 = fl_mul fl x2 (fl_mul fl bs (scale_x lay));
            y3 = fl_mul fl y2 (fl_mul fl bs (scale_y lay));
            x4 = fl_add fl x3 (fl_add fl center_x (offset_x lay));
            y4 = fl_add fl y3 (fl_add fl center_y (offset_y lay))
        in (py_int x4, py_int y4))"

definition layer_transform :: "float_ops \<Rightarrow> DrawingArea \<Rightarrow> layer \<Rightarrow> error + (point \<Rightarrow> point)" where
  "layer_transform fl drawing_area lay =
     (case draw_available fl drawing_area of (avail_w, avail_h, center_x, center_y) \<Rightarrow>
        bind_result (layer_bounds fl avail_w avail_h (layer_paths lay))
          (\<lambda>(path_w, path_h, pcx, pcy, bs).
             Inr (transform_point fl center_x center_y pcx pcy bs lay)))"

text \<open>
  The loop over the layers: a layer without paths is skipped, the paths of the others are
  appended to \<^verbatim>\<open>all_scaled_paths\<close>. An exception ends the generator with an error
  message and nothing is drawn.
\<close>

fun draw_layers ::
  "float_ops \<Rightarrow> DrawingArea \<Rightarrow> path list \<Rightarrow> layer list \<Rightarrow> error + path list" where
  "draw_layers fl drawing_area all_scaled_paths [] = Inr all_scaled_paths"
| "draw_layers fl drawing_area all_scaled_paths (lay # rest) =
     (if layer_paths lay = [] then draw_layers fl drawing_area all_scaled_paths rest
      else bind_result (layer_transform fl drawing_area lay) (\<lambda>f.
             draw_layers fl drawing_area
               (scale_paths_loop drawing_area f all_scaled_paths (layer_paths lay)) rest))"

definition draw_paths :: "float_ops \<Rightarrow> DrawingArea \<Rightarrow> layer list \<Rightarrow> error + path list" where
  "draw_paths fl drawing_area input_layers = draw_layers fl drawing_area [] input_layers"

text \<open>
  The containment filter as the specification words it: a path keeps the transformed
  points that are inside, in their order, and a path with fewer than two of them is
  dropped.
\<close>

definition kept_points :: "DrawingArea \<Rightarrow> (point \<Rightarrow> point) \<Rightarrow> path \<Rightarrow> path" where
  "kept_points area f path = filter (\<lambda>(x, y). is_inside area x y) (map f path)"

definition kept_paths :: "DrawingArea \<Rightarrow> (point \<Rightarrow> point) \<Rightarrow> path list \<Rightarrow> path list" where
  "kept_paths area f pths = filter (\<lambda>q. 2 \<le> length q) (map (kept_points area f) pths)"

text \<open>
  What the loop over the layers contributes, layer by layer: nothing for a layer without
  paths, and for any other layer the containment filter applied under the layer's own
  transform.
\<close>

definition layer_outputs ::
  "float_ops \<Rightarrow> DrawingArea \<Rightarrow> layer list \<Rightarrow> path list list \<Rightarrow> bool" where
  "layer_outputs fl area lays outs =
     list_all2 (\<lambda>lay out.
        (layer_paths lay = [] \<and> out = []) \<or>
        (\<exists>f. layer_transform fl area lay = Inr f \<and> out = kept_paths area f (layer_paths lay)))
       lays outs"

text \<open>
  The layer that carries a path set with the neutral transform: rotation 0, no flip,
  scale 1.0, offset (0, 0).
\<close>

definition neutral_layer :: "path list \<Rightarrow> layer" where
  "neutral_layer pths =
     \<lparr> layer_paths = pths, offset_x = 0, offset_y = 0, scale_x = 1, scale_y = 1,
       rotation = 0, flip_h = False, flip_v = False \<rparr>"

text \<open>
  The source and the target for which the one-shot fit is compared with the neutral
  layer transform: the layer's points moved so that their bounds start at the origin,
  with the extents of the bounds as image size; and the area with its left and top edges
  moved to the right and bottom edges of the top-left exclusion, where \<^verbatim>\<open>draw\<close> starts its
  available rectangle.
\<close>

definition bounding_source :: "path list \<Rightarrow> int \<Rightarrow> int \<Rightarrow> int \<Rightarrow> int \<Rightarrow> ImagePaths" where
  "bounding_source pths min_x min_y path_w path_h =
     \<lparr> paths = map (map (\<lambda>(x, y). (x - min_x, y - min_y))) pths,
       width = path_w, height = path_h \<rparr>"

definition usable_target :: "DrawingArea \<Rightarrow> DrawingArea" where
  "usable_target a =
     a \<lparr> left := max (left a) (top_excl_right a),
         top_a := max (top_a a) (top_excl_bottom a) \<rparr>"

text \<open>Two points that differ by at most one unit in each coordinate.\<close>

definition near_points :: "point \<Rightarrow> point \<Rightarrow> bool" where
  "near_points q r = (\<bar>fst q - fst r\<bar> \<le> 1 \<and> \<bar>snd q - snd r\<bar> \<le> 1)"

text \<open>
  Coordinates of a screen or an image are far below \<open>2^20\<close> in magnitude; the bound is
  asked of the fields of an area that the fits read and of the points of a layer.
\<close>

definition screen_area :: "DrawingArea \<Rightarrow> bool" where
  "screen_area a =
     (\<bar>left a\<bar> \<le> 2 ^ 20 \<and> \<bar>top_a a\<bar> \<le> 2 ^ 20 \<and> \<bar>bottom a\<bar> \<le> 2 ^ 20 \<and>
      \<bar>cutout_left a\<bar> \<le> 2 ^ 20 \<and> \<bar>top_excl_right a\<bar> \<le> 2 ^ 20 \<and>
      \<bar>top_excl_bottom a\<bar> \<le> 2 ^ 20)"

definition screen_points :: "path list \<Rightarrow> bool" where
  "screen_points pths = list_all (\<lambda>p. \<bar>fst p\<bar> \<le> 2 ^ 20 \<and> \<bar>snd p\<bar> \<le> 2 ^ 20) (concat pths)"

text \<open>
  An area, a square path, an image of the size of the square with the square and a path
  of a single point, an image twice that size, and an area whose available rectangle in
  \<^verbatim>\<open>draw\<close> has width 0, used as concrete inputs of the fits.
\<close>

definition example_area :: DrawingArea where
  "example_area =
     \<lparr> top_a = 0, left = 0, right = 1000, bottom = 2040,
       cutout_left = 640, cutout_top = 1200,
       top_excl_right = 200, top_excl_bottom = 200 \<rparr>"

definition square_path :: path where
  "square_path = [(0, 0), (100, 0), (100, 100), (0, 100)]"

definition example_image :: ImagePaths where
  "example_image = \<lparr> paths = [square_path, [(0, 0)]], width = 100, height = 100 \<rparr>"

definition wide_image :: ImagePaths where
  "wide_image = \<lparr> paths = [square_path], width = 200, height = 200 \<rparr>"

definition narrow_area :: DrawingArea where
  "narrow_area =
     \<lparr> top_a = 0, left = 0, right = 1000, bottom = 2040,
       cutout_left = 240, cutout_top = 1200,
       top_excl_right = 200, top_excl_bottom = 200 \<rparr>"

section \<open>Erase and undo (the page script of \<^verbatim>\<open>revodraw.py\<close>)\<close>

text \<open>
  The state of the editor that \<^verbatim>\<open>eraseAt\<close> and \<^verbatim>\<open>undoErase\<close> read or write. Of a layer
  object only \<^verbatim>\<open>paths\<close> is used (\<open>None\<close> stands for a missing value); the global
  \<^verbatim>\<open>rotation\<close> is called \<open>rotation_deg\<close>, and \<^verbatim>\<open>imageOffset\<close> and the size of the canvas
  are split into their two numbers. \<^verbatim>\<open>pathsHistory\<close> grows at its end: \<^verbatim>\<open>push\<close> appends,
  \<^verbatim>\<open>pop\<close> removes the last element and \<^verbatim>\<open>shift\<close> the first.
\<close>

record js_layer =
  lpaths :: "path list option"

record editor =
  layers :: "js_layer list"
  activeLayerIndex :: int
  processedPaths :: "path list option"
  pathsHistory :: "path list list"
  drawingArea :: "DrawingArea option"
  canvas_width :: real
  canvas_height :: real
  imageOffset_x :: real
  imageOffset_y :: real
  scaleX :: real
  scaleY :: real
  rotation_deg :: real
  flipHorizontal :: bool
  flipVertical :: bool
  eraserSize :: real

text \<open>Indexing an array: \<^verbatim>\<open>undefined\<close> outside of it.\<close>

definition js_nth :: "'a list \<Rightarrow> int \<Rightarrow> 'a option" where
  "js_nth xs i = (if 0 \<le> i \<and> i < int (length xs) then Some (xs ! nat i) else None)"

text \<open>
  The least and the greatest coordinate of a list of points. On no point at all the
  source holds infinite bounds, with which no point is ever transformed; the model
  holds 0 there.
\<close>

definition js_min :: "int list \<Rightarrow> int" where
  "js_min xs = (case xs of [] \<Rightarrow> 0 | x # rest \<Rightarrow> fold min rest x)"

definition js_max :: "int list \<Rightarrow> int" where
  "js_max xs = (case xs of [] \<Rightarrow> 0 | x # rest \<Rightarrow> fold max rest x)"

text \<open>
  \<^verbatim>\<open>transformToCanvas\<close> with the values \<^verbatim>\<open>eraseAt\<close> computes before it: the preview
  transform of the canvas, the bounds of the layer's points, the available rectangle.
  A division by zero gives no exception in the source but an infinite value, which is
  outside the model.
\<close>

definition transformToCanvas :: "editor \<Rightarrow> DrawingArea \<Rightarrow> path list \<Rightarrow> point \<Rightarrow> real \<times> real" where
  "transformToCanvas s area pths p =
     (case p of (px, py) \<Rightarrow>
        let previewScale =
              min (canvas_width s / real_of_int (right area - left area + 100))
                  (canvas_height s / real_of_int (bottom area - top_a area + 100)) * (9 / 10);
            offsetX = (canvas_width s - real_of_int (right area - left area) * previewScale) / 2;
            offsetY = (canvas_height s - real_of_int (bottom area - top_a area) * previewScale) / 2;
            minX = js_min (map fst (concat pths));
            minY = js_min (map snd (concat pths));
            maxX = js_max (map fst (concat pths));
            maxY = js_max (map snd (concat pths));
            pathW = or_one (maxX - minX);
            pathH = or_one (maxY - minY);
            pathCenterX = real_of_int minX + real_of_int pathW / 2;
            pathCenterY = real_of_int minY + real_of_int pathH / 2;
            availLeft = max (left area) (top_excl_right area);
            availTop = max (top_a area) (top_excl_bottom area);
            availRight = cutout_left area;
            availBottom = bottom area;
            availW = availRight - availLeft - 40;
            availH = availBottom - availTop - 40;
            areaCenterX = real_of_int availLeft + 20 + real_of_int availW / 2;
            areaCenterY = real_of_int availTop + 20 + real_of_int availH / 2;
            baseScale = min (real_of_int availW / real_of_int pathW)
                            (real_of_int availH / real_of_int pathH);
            x0 = real_of_int px - pathCenterX;
            y0 = real_of_int py - pathCenterY;
            x1 = (if flipHorizontal s then - x0 else x0);
            y1 = (if flipVertical s then - y0 else y0);
            rad = rotation_deg s * pi / 180;
            x2 = (if rotation_deg s \<noteq> 0 then x1 * cos rad - y1 * sin rad else x1);
            y2 = (if rotation_deg s \<noteq> 0 then x1 * sin rad + y1 * cos rad else y1);
            x3 = x2 * (baseScale * scaleX s) + areaCenterX;
            y3 = y2 * (baseScale * scaleY s) + areaCenterY
        in (offsetX + (x3 - real_of_int (left area)) * previewScale + imageOffset_x s,
            offsetY + (y3 - real_of_int (top_a area)) * previewScale + imageOffset_y s))"

text \<open>The filter of \<^verbatim>\<open>eraseAt\<close>: a point stays when it is farther from the cursor than the radius.\<close>

definition erase_keeps :: "editor \<Rightarrow> DrawingArea \<Rightarrow> path list \<Rightarrow> real \<Rightarrow> real \<Rightarrow> point \<Rightarrow> bool" where
  "erase_keeps s area pths canvasX canvasY p =
     (case transformToCanvas s area pths p of (cx, cy) \<Rightarrow>
        sqrt ((cx - canvasX)\<^sup>2 + (cy - canvasY)\<^sup>2) > eraserSize s)"

definition eraseAt :: "real \<Rightarrow> real \<Rightarrow> editor \<Rightarrow> editor" where
  "eraseAt canvasX canvasY s =
     (if activeLayerIndex s < 0 then s
      else case js_nth (layers s) (activeLayerIndex s) of
             None \<Rightarrow> s
           | Some lay \<Rightarrow>
      (case drawingArea s of
             None \<Rightarrow> s
           | Some area \<Rightarrow>
      (case lpaths lay of
             None \<Rightarrow> s
           | Some pths \<Rightarrow>
         if length pths = 0 then s
         else
           let history =
                 (if length (pathsHistory s) = 0 \<or> last (pathsHistory s) \<noteq> pths
                  then (let pushed = pathsHistory s @ [pths]
                        in if length pushed > 20 then tl pushed else pushed)
                  else pathsHistory s);
               new_paths =
                 filter (\<lambda>path. length path \<ge> 2)
                   (map (filter (erase_keeps s area pths canvasX canvasY)) pths)
           in s \<lparr> layers := (layers s) [nat (activeLayerIndex s) := lay \<lparr> lpaths := Some new_paths \<rparr>],
                  processedPaths := Some new_paths,
                  pathsHistory := history \<rparr>)))"

text \<open>
  \<^verbatim>\<open>undoErase\<close>. Writing \<^verbatim>\<open>paths\<close> of a layer that does not exist throws a
  \<^verbatim>\<open>TypeError\<close>.
\<close>

definition undoErase :: "editor \<Rightarrow> error + editor" where
  "undoErase s =
     (if length (pathsHistory s) > 0
      then (let popped = last (pathsHistory s);
                s1 = s \<lparr> processedPaths := Some popped,
                         pathsHistory := butlast (pathsHistory s) \<rparr>
            in if activeLayerIndex s \<ge> 0
               then (case js_nth (layers s) (activeLayerIndex s) of
                       None \<Rightarrow> Inl TypeError
                     | Some lay \<Rightarrow>
                         Inr (s1 \<lparr> layers := (layers s) [nat (activeLayerIndex s) :=
                                                       lay \<lparr> lpaths := Some popped \<rparr>] \<rparr>))
               else Inr s1)
      else Inr s)"

text \<open>A run of erase operations at the given cursor positions, and a run of undo operations.\<close>

fun erase_all :: "(real \<times> real) list \<Rightarrow> editor \<Rightarrow> editor" where
  "erase_all [] s = s"
| "erase_all (c # cs) s = erase_all cs (eraseAt (fst c) (snd c) s)"

fun undo_times :: "nat \<Rightarrow> editor \<Rightarrow> error + editor" where
  "undo_times 0 s = Inr s"
| "undo_times (Suc n) s = bind_result (undoErase s) (undo_times n)"

text \<open>The path set of the active layer, when there is one.\<close>

definition active_paths :: "editor \<Rightarrow> path list option" where
  "active_paths s =
     (case js_nth (layers s) (activeLayerIndex s) of None \<Rightarrow> None | Some lay \<Rightarrow> lpaths lay)"

text \<open>
  An editor with one layer of one path of three points, on the scenario area, with the
  empty undo stack.
\<close>

definition example_editor :: editor where
  "example_editor =
     \<lparr> layers = [\<lparr> lpaths = Some [[(0, 0), (100, 0), (100, 100)]] \<rparr>],
       activeLayerIndex = 0,
       processedPaths = Some [[(0, 0), (100, 0), (100, 100)]],
       pathsHistory = [],
       drawingArea = Some scenario_area,
       canvas_width = 1100, canvas_height = 2100,
       imageOffset_x = 0, imageOffset_y = 0,
       scaleX = 1, scaleY = 1, rotation_deg = 0,
       flipHorizontal = False, flipVertical = False,
       eraserSize = 30 \<rparr>"

text \<open>
  The invariant that makes undo restore the path set \<open>p\<close>: the active layer exists,
  the undo stack holds at most \<open>n\<close> snapshots, and either the stack is empty and the
  active layer still holds \<open>p\<close>, or the oldest snapshot is \<open>p\<close>.
\<close>

definition undo_restores :: "path list option \<Rightarrow> nat \<Rightarrow> editor \<Rightarrow> bool" where
  "undo_restores p n s =
     (js_nth (layers s) (activeLayerIndex s) \<noteq> None \<and>
      length (pathsHistory s) \<le> n \<and>
      (if pathsHistory s = [] then active_paths s = p else Some (hd (pathsHistory s)) = p))"

text \<open>
  An erase applies when it gets as far as its filter: there is an active layer, an area
  has been detected and the layer has paths. A run of erases is tracked when each of
  its erases but the last changes the path set of the active layer, and the last one
  applies. \<open>undo_depth p n\<close> says that the active layer exists and that the \<open>n\<close>-th
  snapshot from the top of the undo stack is \<open>p\<close>.
\<close>

definition erase_applies :: "editor \<Rightarrow> bool" where
  "erase_applies s =
     (case js_nth (layers s) (activeLayerIndex s) of
        None \<Rightarrow> False
      | Some lay \<Rightarrow>
          (case drawingArea s of
             None \<Rightarrow> False
           | Some area \<Rightarrow> (case lpaths lay of None \<Rightarrow> False | Some pths \<Rightarrow> pths \<noteq> [])))"

fun erases_tracked :: "(real \<times> real) list \<Rightarrow> editor \<Rightarrow> bool" where
  "erases_tracked [] s = True"
| "erases_tracked [c] s = erase_applies s"
| "erases_tracked (c # c' # cs) s =
     (active_paths (eraseAt (fst c) (snd c) s) \<noteq> active_paths s \<and>
      erases_tracked (c' # cs) (eraseAt (fst c) (snd c) s))"

definition undo_depth :: "path list option \<Rightarrow> nat \<Rightarrow> editor \<Rightarrow> bool" where
  "undo_depth p n s =
     (js_nth (layers s) (activeLayerIndex s) \<noteq> None \<and>
      1 \<le> n \<and> n \<le> length (pathsHistory s) \<and>
      Some (pathsHistory s ! (length (pathsHistory s) - n)) = p)"

section \<open>Containment\<close>

lemma is_inside_iff:
  "is_inside a x y \<longleftrightarrow> in_outer a x y \<and> \<not> in_top_excl a x y \<and> \<not> in_cutout a x y"
  by (auto simp add: is_inside_def in_outer_def in_top_excl_def in_cutout_def)

text \<open>
  C10. The outer rectangle is closed: a point on one of its four edges that passes
  neither exclusion-membership test is reported inside.
\<close>

theorem is_inside_outer_edge_closed:
  assumes "in_outer a x y"
    and "x = left a \<or> x = right a \<or> y = top_a a \<or> y = bottom a"
    and "\<not> in_top_excl a x y" and "\<not> in_cutout a x y"
  shows "is_inside a x y"
  using assms by (simp add: is_inside_iff)

theorem is_inside_outer_edge_closed_witness:
  "in_outer scenario_area 1000 500 \<and> 1000 = right scenario_area \<and>
   \<not> in_top_excl scenario_area 1000 500 \<and> \<not> in_cutout scenario_area 1000 500 \<and>
   is_inside scenario_area 1000 500"
proof -
  have o: "in_outer scenario_area 1000 500"
    by (simp add: in_outer_def scenario_area_def)
  have e: "1000 = left scenario_area \<or> 1000 = right scenario_area
             \<or> 500 = top_a scenario_area \<or> 500 = bottom scenario_area"
    by (simp add: scenario_area_def)
  have t: "\<not> in_top_excl scenario_area 1000 500"
    by (simp add: in_top_excl_def scenario_area_def)
  have c: "\<not> in_cutout scenario_area 1000 500"
    by (simp add: in_cutout_def scenario_area_def)
  from is_inside_outer_edge_closed [OF o e t c] o t c show ?thesis
    by (simp add: scenario_area_def)
qed

text \<open>
  Soundness of the containment test, for every area: a point that passes an
  exclusion-membership test or lies outside the outer rectangle is never inside.
\<close>

lemma is_inside_sound:
  "in_top_excl a x y \<or> in_cutout a x y \<or> \<not> in_outer a x y \<Longrightarrow> \<not> is_inside a x y"
  by (auto simp add: is_inside_iff)

lemma center_inside_iff_main_lobe:
  assumes "max (left a) (top_excl_right a) < cutout_left a"
    and "cutout_left a \<le> right a"
    and "max (top_a a) (top_excl_bottom a) < bottom a"
    and "max (left a) (top_excl_right a) + 2 \<le> cutout_left a
         \<or> max (top_a a) (top_excl_bottom a) + 2 \<le> bottom a"
  shows "is_inside a (fst (center a)) (snd (center a))"
proof -
  define ml where "ml = max (left a) (top_excl_right a)"
  define mt where "mt = max (top_a a) (top_excl_bottom a)"
  define cx where "cx = ml + (cutout_left a - ml) div 2"
  define cy where "cy = mt + (bottom a - mt) div 2"
  have c: "center a = (cx, cy)"
    by (simp add: center_def Let_def cx_def cy_def ml_def mt_def)
  from assms have h: "ml < cutout_left a" "cutout_left a \<le> right a" "mt < bottom a"
    "ml + 2 \<le> cutout_left a \<or> mt + 2 \<le> bottom a"
    by (simp_all add: ml_def mt_def)
  have ml: "left a \<le> ml" "top_excl_right a \<le> ml" by (simp_all add: ml_def)
  have mt: "top_a a \<le> mt" "top_excl_bottom a \<le> mt" by (simp_all add: mt_def)
  have x: "ml \<le> cx" "cx < cutout_left a" using h(1) by (simp_all add: cx_def)
  have y: "mt \<le> cy" "cy \<le> bottom a" using h(3) by (simp_all add: cy_def)
  have far: "ml < cx \<or> mt < cy" using h(4) by (auto simp add: cx_def cy_def)
  have "in_outer a cx cy" using ml mt x y h(2) by (simp add: in_outer_def)
  moreover have "\<not> in_top_excl a cx cy" using ml mt x y far by (auto simp add: in_top_excl_def)
  moreover have "\<not> in_cutout a cx cy" using x by (simp add: in_cutout_def)
  ultimately show ?thesis by (simp add: c is_inside_iff)
qed

text \<open>
  Counterexample to C2 as stated: the centre of an area need not be inside it, even
  when the area satisfies the invariant of the data model. Here the top-left exclusion
  reaches further right than the left edge of the bottom-right one, and \<^verbatim>\<open>center\<close> is
  (500, 1075), a point of the bottom-right exclusion.
\<close>

theorem center_not_inside_counterexample:
  "area_invariant \<lparr> top_a = 0, left = 0, right = 1000, bottom = 2000,
       cutout_left = 400, cutout_top = 1000,
       top_excl_right = 600, top_excl_bottom = 150 \<rparr> \<and>
   center \<lparr> top_a = 0, left = 0, right = 1000, bottom = 2000,
       cutout_left = 400, cutout_top = 1000,
       top_excl_right = 600, top_excl_bottom = 150 \<rparr> = (500, 1075) \<and>
   \<not> is_inside \<lparr> top_a = 0, left = 0, right = 1000, bottom = 2000,
       cutout_left = 400, cutout_top = 1000,
       top_excl_right = 600, top_excl_bottom = 150 \<rparr> 500 1075"
  by (simp add: area_invariant_def center_def is_inside_def)

text \<open>
  C2, amended. For every area and point, \<^verbatim>\<open>is_inside\<close> is false whenever the point passes
  the top-left test (\<open>x \<le> top_excl_right\<close> and \<open>y \<le> top_excl_bottom\<close>), passes the
  bottom-right test (\<open>x \<ge> cutout_left\<close> and \<open>y \<ge> cutout_top\<close>) or lies outside the outer
  rectangle. It is true for the area's own centre when the main lobe is not empty
  (\<open>max left top_excl_right < cutout_left \<le> right\<close> and
  \<open>max top top_excl_bottom < bottom\<close>) and is at least two units wide or two units high.
\<close>

theorem is_inside_sound_and_center:
  "(in_top_excl a x y \<or> in_cutout a x y \<or> \<not> in_outer a x y \<longrightarrow> \<not> is_inside a x y) \<and>
   (max (left a) (top_excl_right a) < cutout_left a \<and> cutout_left a \<le> right a \<and>
    max (top_a a) (top_excl_bottom a) < bottom a \<and>
    (max (left a) (top_excl_right a) + 2 \<le> cutout_left a
       \<or> max (top_a a) (top_excl_bottom a) + 2 \<le> bottom a)
    \<longrightarrow> is_inside a (fst (center a)) (snd (center a)))"
  using is_inside_sound [of a x y] center_inside_iff_main_lobe [of a] by blast

theorem is_inside_sound_and_center_witness:
  "in_top_excl scenario_area 100 100 \<and> \<not> is_inside scenario_area 100 100 \<and>
   max (left scenario_area) (top_excl_right scenario_area) + 2 \<le> cutout_left scenario_area \<and>
   cutout_left scenario_area \<le> right scenario_area \<and>
   max (top_a scenario_area) (top_excl_bottom scenario_area) < bottom scenario_area \<and>
   center scenario_area = (450, 1075) \<and> is_inside scenario_area 450 1075"
proof -
  have e: "in_top_excl scenario_area 100 100"
    by (simp add: in_top_excl_def scenario_area_def)
  have g: "max (left scenario_area) (top_excl_right scenario_area) < cutout_left scenario_area"
    "cutout_left scenario_area \<le> right scenario_area"
    "max (top_a scenario_area) (top_excl_bottom scenario_area) < bottom scenario_area"
    "max (left scenario_area) (top_excl_right scenario_area) + 2 \<le> cutout_left scenario_area"
    by (simp_all add: scenario_area_def)
  have c: "center scenario_area = (450, 1075)"
    by (simp add: center_def scenario_area_def)
  from is_inside_sound_and_center [of scenario_area 100 100] e g c show ?thesis
    by simp
qed

text \<open>
  C7. On the scenario area with margin 20, \<^verbatim>\<open>get_usable_rect\<close> returns
  (220, 170, 680, 1980). The rectangle (20, 170, 680, 1980), which keeps the same
  margin of 20 from the left and bottom edges and from both exclusions, contains it
  properly and every one of its points is drawable: the returned rectangle is not the
  largest one that avoids both exclusions.
\<close>

theorem get_usable_rect_not_largest:
  "get_usable_rect scenario_area 20 = (220, 170, 680, 1980) \<and>
   (left scenario_area + 20, top_excl_bottom scenario_area + 20,
    cutout_left scenario_area - 20, bottom scenario_area - 20) = (20, 170, 680, 1980) \<and>
   rect_drawable scenario_area (20, 170, 680, 1980) \<and>
   rect_size (get_usable_rect scenario_area 20) < rect_size (20, 170, 680, 1980)"
  by (auto simp add: get_usable_rect_def rect_drawable_def rect_size_def
      is_inside_def scenario_area_def)

theorem get_usable_rect_not_largest_witness:
  "(20::int) \<in> {20..680} \<and> (170::int) \<in> {170..1980} \<and> is_inside scenario_area 20 170"
proof -
  from get_usable_rect_not_largest
  have "\<forall>x \<in> {20..680}. \<forall>y \<in> {170..1980}. is_inside scenario_area x y"
    by (simp add: rect_drawable_def)
  moreover have "(20::int) \<in> {20..680}" "(170::int) \<in> {170..1980}" by simp_all
  ultimately show ?thesis by blast
qed

section \<open>Clustering\<close>













section \<open>Slot assignment\<close>





lemma find_boundary_line_total:
  "\<exists>v. find_boundary_line fl cs rs re d = Inr v"
  by (auto simp add: find_boundary_line_def Let_def py_max_key_def split: list.splits)






section \<open>The containment filter of the two fits\<close>

lemma scale_path_loop_eq:
  "scale_path_loop area f acc path = acc @ kept_points area f path"
  by (induction path arbitrary: acc) (auto simp add: kept_points_def split: prod.splits)

lemma scale_paths_loop_eq:
  "scale_paths_loop area f acc pths = acc @ kept_paths area f pths"
  by (induction pths arbitrary: acc) (auto simp add: kept_paths_def scale_path_loop_eq Let_def)

lemma kept_paths_inside:
  "q \<in> set (kept_paths area f pths) \<Longrightarrow> 2 \<le> length q \<and> (\<forall>(x, y) \<in> set q. is_inside area x y)"
  by (auto simp add: kept_paths_def kept_points_def)

lemma scale_paths_to_area_kept:
  assumes "scale_paths_to_area fl ip area margin ma fa = Inr out"
  shows "(paths ip = [] \<and> out = []) \<or>
         (\<exists>prm. fit_params fl ip area margin ma fa = Inr prm \<and>
                 out = kept_paths area (place_point fl prm) (paths ip))"
  using assms
  by (auto simp add: scale_paths_to_area_def bind_result_def scale_paths_loop_eq
      split: if_splits sum.splits)

lemma draw_layers_kept:
  "draw_layers fl area acc lays = Inr out \<Longrightarrow>
     \<exists>outs. layer_outputs fl area lays outs \<and> out = acc @ concat outs"
proof (induction lays arbitrary: acc)
  case Nil
  then show ?case by (simp add: layer_outputs_def)
next
  case (Cons lay rest)
  show ?case
  proof (cases "layer_paths lay = []")
    case True
    with Cons.prems have "draw_layers fl area acc rest = Inr out" by simp
    from Cons.IH [OF this] obtain outs where
      o: "layer_outputs fl area rest outs" "out = acc @ concat outs" by blast
    from o(1) True have "layer_outputs fl area (lay # rest) ([] # outs)"
      by (simp add: layer_outputs_def)
    with o(2) show ?thesis by (intro exI [of _ "[] # outs"]) simp
  next
    case False
    with Cons.prems obtain f where f: "layer_transform fl area lay = Inr f"
      and r: "draw_layers fl area (scale_paths_loop area f acc (layer_paths lay)) rest = Inr out"
      by (auto simp add: bind_result_def split: sum.splits)
    from Cons.IH [OF r] obtain outs where
      o: "layer_outputs fl area rest outs"
         "out = scale_paths_loop area f acc (layer_paths lay) @ concat outs" by blast
    from o(1) f have "layer_outputs fl area (lay # rest) (kept_paths area f (layer_paths lay) # outs)"
      by (auto simp add: layer_outputs_def)
    with o(2) show ?thesis
      by (intro exI [of _ "kept_paths area f (layer_paths lay) # outs"])
         (simp add: scale_paths_loop_eq)
  qed
qed

lemma layer_outputs_inside:
  "layer_outputs fl area lays outs \<Longrightarrow> q \<in> set (concat outs) \<Longrightarrow>
     2 \<le> length q \<and> (\<forall>(x, y) \<in> set q. is_inside area x y)"
  unfolding layer_outputs_def
proof (induction rule: list_all2_induct)
  case Nil then show ?case by simp
next
  case (Cons lay lays out outs)
  from Cons.prems consider "q \<in> set out" | "q \<in> set (concat outs)" by auto
  then show ?case
  proof cases
    case 1
    with Cons.hyps(1) show ?thesis by (elim disjE exE conjE) (simp_all add: kept_paths_inside)
  next
    case 2
    then show ?thesis by (rule Cons.IH)
  qed
qed

lemma one_shot_example:
  "scale_paths_to_area exact_ops example_image example_area 20 True False
     = Inr [[(20, 720), (620, 720), (620, 1320), (20, 1320)]]"
  by (simp add: scale_paths_to_area_def fit_params_def py_truediv_def bind_result_def
      example_image_def square_path_def example_area_def place_point_def py_int_def
      is_inside_def exact_ops_def)

lemma layers_example:
  "draw_paths exact_ops example_area [neutral_layer [square_path, [(50, 50)]], neutral_layer []]
     = Inr [[(220, 920), (620, 920), (620, 1320), (220, 1320)]]"
  by (simp add: draw_paths_def layer_transform_def draw_available_def layer_bounds_def
      py_min_def py_max_def or_one_def transform_point_def neutral_layer_def
      py_truediv_def bind_result_def square_path_def example_area_def py_int_def
      is_inside_def exact_ops_def)

text \<open>
  C1. Whenever the one-shot fit or the per-layer transform returns paths, whatever the
  rounding of the doubles, the result is
  the containment filter of the transformed input: each path keeps exactly its points
  that are inside, in their order, paths with fewer than two such points are dropped,
  and so every point of every output path satisfies \<^verbatim>\<open>is_inside\<close> of the area.
\<close>

theorem fit_containment:
  "(scale_paths_to_area fl ip area margin ma fa = Inr out \<longrightarrow>
      ((paths ip = [] \<and> out = []) \<or>
       (\<exists>prm. fit_params fl ip area margin ma fa = Inr prm \<and>
               out = kept_paths area (place_point fl prm) (paths ip))) \<and>
      (\<forall>q \<in> set out. 2 \<le> length q \<and> (\<forall>(x, y) \<in> set q. is_inside area x y))) \<and>
   (draw_paths fl area lays = Inr out' \<longrightarrow>
      (\<exists>outs. layer_outputs fl area lays outs \<and> out' = concat outs) \<and>
      (\<forall>q \<in> set out'. 2 \<le> length q \<and> (\<forall>(x, y) \<in> set q. is_inside area x y)))"
proof (intro conjI impI)
  assume a: "scale_paths_to_area fl ip area margin ma fa = Inr out"
  from scale_paths_to_area_kept [OF a]
  show k: "(paths ip = [] \<and> out = []) \<or>
       (\<exists>prm. fit_params fl ip area margin ma fa = Inr prm \<and>
               out = kept_paths area (place_point fl prm) (paths ip))" .
  show "\<forall>q \<in> set out. 2 \<le> length q \<and> (\<forall>(x, y) \<in> set q. is_inside area x y)"
    using k kept_paths_inside by fastforce
next
  assume a: "draw_paths fl area lays = Inr out'"
  then obtain outs where o: "layer_outputs fl area lays outs" "out' = concat outs"
    using draw_layers_kept [of fl area "[]" lays out'] by (auto simp add: draw_paths_def)
  then show "\<exists>outs. layer_outputs fl area lays outs \<and> out' = concat outs" by blast
  show "\<forall>q \<in> set out'. 2 \<le> length q \<and> (\<forall>(x, y) \<in> set q. is_inside area x y)"
    using o layer_outputs_inside by blast
qed

theorem fit_containment_witness:
  "scale_paths_to_area exact_ops example_image example_area 20 True False
     = Inr [[(20, 720), (620, 720), (620, 1320), (20, 1320)]] \<and>
   draw_paths exact_ops example_area [neutral_layer [square_path, [(50, 50)]], neutral_layer []]
     = Inr [[(220, 920), (620, 920), (620, 1320), (220, 1320)]] \<and>
   list_all (\<lambda>q. 2 \<le> length q \<and> list_all (\<lambda>(x, y). is_inside example_area x y) q)
     [[(20, 720), (620, 720), (620, 1320), (20, 1320)]] \<and>
   list_all (\<lambda>q. 2 \<le> length q \<and> list_all (\<lambda>(x, y). is_inside example_area x y) q)
     [[(220, 920), (620, 920), (620, 1320), (220, 1320)]]"
  unfolding list_all_iff
  using fit_containment [of exact_ops example_image example_area 20 True False
      "[[(20, 720), (620, 720), (620, 1320), (20, 1320)]]"
      "[neutral_layer [square_path, [(50, 50)]], neutral_layer []]"
      "[[(220, 920), (620, 920), (620, 1320), (220, 1320)]]"]
    one_shot_example layers_example
  by blast

section \<open>Scale and offset of the one-shot fit\<close>

lemma fit_params_aspect:
  assumes "width ip \<noteq> 0" and "height ip \<noteq> 0"
  shows "fit_params fl ip area margin True full =
    (let avail_w = real_of_int ((if full then right area else cutout_left area)
                                  - left area - 2 * margin);
         avail_h = real_of_int (bottom area - top_a area - 2 * margin);
         scale = min (fl_div fl avail_w (real_of_int (width ip)))
                     (fl_div fl avail_h (real_of_int (height ip)))
     in Inr (scale, scale,
             fl_add fl (real_of_int (left area + margin))
               (fl_div fl (fl_sub fl avail_w (fl_mul fl (real_of_int (width ip)) scale)) 2),
             fl_add fl (real_of_int (top_a area + margin))
               (fl_div fl (fl_sub fl avail_h (fl_mul fl (real_of_int (height ip)) scale)) 2)))"
  using assms by (simp add: fit_params_def py_truediv_def bind_result_def Let_def)

text \<open>
  C4. When the image width and height are not zero, the one-shot fit with aspect lock
  uses the one scale factor \<open>min (avail_w / src_w) (avail_h / src_h)\<close> on both axes and
  translates by \<open>origin + margin + (available - scaled) / 2\<close> on each axis, every
  operation being the rounded one of the doubles, whatever the rounding. The available
  width is measured from the left edge of the area to the left edge of the bottom-right
  exclusion when the full L-shape is disallowed, and to the right edge of the area when
  it is allowed (less the margin on both sides). The result of the fit is the
  containment filter of the points so placed.
\<close>

theorem scale_paths_to_area_aspect_locked:
  assumes "width ip \<noteq> 0" and "height ip \<noteq> 0"
  shows
   "(let avail_w = real_of_int ((if full then right area else cutout_left area)
                                  - left area - 2 * margin);
         avail_h = real_of_int (bottom area - top_a area - 2 * margin);
         scale = min (fl_div fl avail_w (real_of_int (width ip)))
                     (fl_div fl avail_h (real_of_int (height ip)));
         off_x = fl_add fl (real_of_int (left area + margin))
                   (fl_div fl (fl_sub fl avail_w (fl_mul fl (real_of_int (width ip)) scale)) 2);
         off_y = fl_add fl (real_of_int (top_a area + margin))
                   (fl_div fl (fl_sub fl avail_h (fl_mul fl (real_of_int (height ip)) scale)) 2)
     in fit_params fl ip area margin True full = Inr (scale, scale, off_x, off_y) \<and>
        scale_paths_to_area fl ip area margin True full =
          Inr (kept_paths area
                 (\<lambda>(x, y). (py_int (fl_add fl off_x (fl_mul fl (real_of_int x) scale)),
                            py_int (fl_add fl off_y (fl_mul fl (real_of_int y) scale))))
                 (paths ip)))"
proof -
  have pp: "place_point fl (sx, sy, ox, oy)
              = (\<lambda>(x, y). (py_int (fl_add fl ox (fl_mul fl (real_of_int x) sx)),
                           py_int (fl_add fl oy (fl_mul fl (real_of_int y) sy))))"
    for sx sy ox oy
    by (rule ext) (simp add: place_point_def split: prod.splits)
  show ?thesis
    using fit_params_aspect [OF assms, of fl area margin full]
    by (simp add: Let_def scale_paths_to_area_def bind_result_def scale_paths_loop_eq pp
        kept_paths_def)
qed

theorem scale_paths_to_area_aspect_locked_witness:
  "width example_image \<noteq> 0 \<and> height example_image \<noteq> 0 \<and>
   fit_params exact_ops example_image example_area 20 True False = Inr (6, 6, 20, 720) \<and>
   scale_paths_to_area exact_ops example_image example_area 20 True False
     = Inr [[(20, 720), (620, 720), (620, 1320), (20, 1320)]] \<and>
   fit_params exact_ops example_image example_area 100 True True = Inr (8, 8, 100, 620)"
proof -
  have w: "width example_image \<noteq> 0" and h: "height example_image \<noteq> 0"
    by (simp_all add: example_image_def)
  from scale_paths_to_area_aspect_locked [OF w h, of False example_area 20 exact_ops]
  have a: "fit_params exact_ops example_image example_area 20 True False = Inr (6, 6, 20, 720)"
    by (simp add: Let_def example_image_def example_area_def exact_ops_def)
  from scale_paths_to_area_aspect_locked [OF w h, of True example_area 100 exact_ops]
  have b: "fit_params exact_ops example_image example_area 100 True True
             = Inr (8, 8, 100, 620)"
    by (simp add: Let_def example_image_def example_area_def exact_ops_def)
  from w h a b one_shot_example show ?thesis by simp
qed

section \<open>Degenerate geometry\<close>

lemma fit_params_total:
  assumes "width ip \<noteq> 0" and "height ip \<noteq> 0"
  shows "\<exists>prm. fit_params fl ip area margin ma fa = Inr prm"
  using assms by (simp add: fit_params_def py_truediv_def bind_result_def Let_def)

lemma or_one_nonzero: "or_one v \<noteq> 0"
  by (simp add: or_one_def)

lemma layer_bounds_no_zero_division:
  "layer_bounds fl avail_w avail_h pths \<noteq> Inl ZeroDivisionError"
  by (auto simp add: layer_bounds_def py_min_def py_max_def py_truediv_def bind_result_def
      Let_def or_one_nonzero split: list.splits)

lemma layer_transform_no_zero_division:
  "layer_transform fl area lay \<noteq> Inl ZeroDivisionError"
proof -
  obtain aw ah cx cy where d: "draw_available fl area = (aw, ah, cx, cy)"
    by (cases "draw_available fl area") auto
  show ?thesis
    using layer_bounds_no_zero_division [of fl aw ah "layer_paths lay"]
    by (cases "layer_bounds fl aw ah (layer_paths lay)")
       (auto simp add: layer_transform_def d bind_result_def)
qed

lemma draw_layers_no_zero_division:
  "draw_layers fl area acc lays \<noteq> Inl ZeroDivisionError"
proof (induction lays arbitrary: acc)
  case Nil show ?case by simp
next
  case (Cons lay rest)
  show ?case
    using layer_transform_no_zero_division [of fl area lay] Cons.IH
    by (cases "layer_transform fl area lay") (auto simp add: bind_result_def)
qed

lemma layer_bounds_value:
  assumes "concat pths \<noteq> []"
  shows "\<exists>min_x min_y max_x max_y.
           py_min (map fst (concat pths)) = Inr min_x \<and> py_max (map fst (concat pths)) = Inr max_x \<and>
           py_min (map snd (concat pths)) = Inr min_y \<and> py_max (map snd (concat pths)) = Inr max_y \<and>
           layer_bounds fl avail_w avail_h pths =
             Inr (or_one (max_x - min_x), or_one (max_y - min_y),
                  fl_add fl (real_of_int min_x) (fl_div fl (real_of_int (or_one (max_x - min_x))) 2),
                  fl_add fl (real_of_int min_y) (fl_div fl (real_of_int (or_one (max_y - min_y))) 2),
                  min (fl_div fl (real_of_int avail_w) (real_of_int (or_one (max_x - min_x))))
                      (fl_div fl (real_of_int avail_h) (real_of_int (or_one (max_y - min_y)))))"
  using assms
  by (cases "concat pths")
     (simp_all add: layer_bounds_def py_min_def py_max_def py_truediv_def bind_result_def
      Let_def or_one_nonzero)

text \<open>
  Counterexample to C9 as stated. The one-shot fit divides by the image width and
  height as they are: an image of width 0 makes it raise \<^verbatim>\<open>ZeroDivisionError\<close>. And no
  path clamps the available rectangle: in \<^verbatim>\<open>draw\<close> an available width of 0 gives the
  scale 0, which sends every point of the layer to the centre of the available
  rectangle.
\<close>

theorem degenerate_geometry_counterexample:
  "scale_paths_to_area exact_ops \<lparr> paths = [square_path], width = 0, height = 100 \<rparr>
      example_area 20 True False = Inl ZeroDivisionError \<and>
   draw_available exact_ops narrow_area = (0, 1800, 220, 1120) \<and>
   draw_paths exact_ops narrow_area [neutral_layer [square_path]]
     = Inr [[(220, 1120), (220, 1120), (220, 1120), (220, 1120)]]"
  by (simp add: scale_paths_to_area_def fit_params_def draw_paths_def layer_transform_def
      draw_available_def layer_bounds_def py_min_def py_max_def or_one_def
      transform_point_def neutral_layer_def py_truediv_def bind_result_def
      square_path_def example_area_def narrow_area_def py_int_def is_inside_def
      exact_ops_def)

text \<open>
  C9, amended. Whatever the rounding of the doubles, the per-layer transform never
  divides by zero: the extent of the bounds
  of the layer's points is replaced by 1 when it is 0, before the division, and the
  available extents are only divided, as they are (they are not clamped). The
  one-shot fit divides by the image width and height and returns paths whenever
  neither is 0.
\<close>

theorem fit_no_zero_division:
  "draw_paths fl area lays \<noteq> Inl ZeroDivisionError \<and>
   (concat pths \<noteq> [] \<longrightarrow>
      (\<exists>min_x min_y max_x max_y.
         py_min (map fst (concat pths)) = Inr min_x \<and>
         py_max (map fst (concat pths)) = Inr max_x \<and>
         py_min (map snd (concat pths)) = Inr min_y \<and>
         py_max (map snd (concat pths)) = Inr max_y \<and>
         (let path_w = (if max_x - min_x = 0 then 1 else max_x - min_x);
              path_h = (if max_y - min_y = 0 then 1 else max_y - min_y)
          in path_w \<noteq> 0 \<and> path_h \<noteq> 0 \<and>
             layer_bounds fl avail_w avail_h pths =
               Inr (path_w, path_h,
                    fl_add fl (real_of_int min_x) (fl_div fl (real_of_int path_w) 2),
                    fl_add fl (real_of_int min_y) (fl_div fl (real_of_int path_h) 2),
                    min (fl_div fl (real_of_int avail_w) (real_of_int path_w))
                        (fl_div fl (real_of_int avail_h) (real_of_int path_h)))))) \<and>
   (width ip \<noteq> 0 \<and> height ip \<noteq> 0 \<longrightarrow>
      (\<exists>out. scale_paths_to_area fl ip area' margin ma fa = Inr out))"
proof (intro conjI impI)
  show "draw_paths fl area lays \<noteq> Inl ZeroDivisionError"
    by (simp add: draw_paths_def draw_layers_no_zero_division)
next
  assume "concat pths \<noteq> []"
  from layer_bounds_value [OF this, of fl avail_w avail_h]
  show "\<exists>min_x min_y max_x max_y.
         py_min (map fst (concat pths)) = Inr min_x \<and>
         py_max (map fst (concat pths)) = Inr max_x \<and>
         py_min (map snd (concat pths)) = Inr min_y \<and>
         py_max (map snd (concat pths)) = Inr max_y \<and>
         (let path_w = (if max_x - min_x = 0 then 1 else max_x - min_x);
              path_h = (if max_y - min_y = 0 then 1 else max_y - min_y)
          in path_w \<noteq> 0 \<and> path_h \<noteq> 0 \<and>
             layer_bounds fl avail_w avail_h pths =
               Inr (path_w, path_h,
                    fl_add fl (real_of_int min_x) (fl_div fl (real_of_int path_w) 2),
                    fl_add fl (real_of_int min_y) (fl_div fl (real_of_int path_h) 2),
                    min (fl_div fl (real_of_int avail_w) (real_of_int path_w))
                        (fl_div fl (real_of_int avail_h) (real_of_int path_h))))"
    unfolding or_one_def Let_def by (elim exE conjE, intro exI conjI) auto
next
  assume "width ip \<noteq> 0 \<and> height ip \<noteq> 0"
  then obtain prm where "fit_params fl ip area' margin ma fa = Inr prm"
    using fit_params_total [of ip fl area' margin ma fa] by blast
  then show "\<exists>out. scale_paths_to_area fl ip area' margin ma fa = Inr out"
    by (simp add: scale_paths_to_area_def bind_result_def)
qed

theorem fit_no_zero_division_witness:
  "concat [[(5, 5), (5, 5)]] \<noteq> ([] :: point list) \<and>
   layer_bounds exact_ops 0 1800 [[(5, 5), (5, 5)]] = Inr (1, 1, 11 / 2, 11 / 2, 0) \<and>
   draw_paths exact_ops example_area [neutral_layer [[(5, 5), (5, 5)]]] \<noteq> Inl ZeroDivisionError \<and>
   width example_image \<noteq> 0 \<and> height example_image \<noteq> 0 \<and>
   (\<exists>out. scale_paths_to_area exact_ops example_image example_area 20 True False = Inr out)"
proof -
  have ne: "concat [[(5, 5), (5, 5)]] \<noteq> ([] :: point list)" by simp
  have wh: "width example_image \<noteq> 0 \<and> height example_image \<noteq> 0"
    by (simp add: example_image_def)
  have mm: "py_min (map fst (concat [[(5, 5), (5, 5)]])) = Inr 5"
    "py_max (map fst (concat [[(5, 5), (5, 5)]])) = Inr 5"
    "py_min (map snd (concat [[(5, 5), (5, 5)]])) = Inr 5"
    "py_max (map snd (concat [[(5, 5), (5, 5)]])) = Inr 5"
    by (simp_all add: py_min_def py_max_def)
  from fit_no_zero_division [of exact_ops example_area "[neutral_layer [[(5, 5), (5, 5)]]]"
      "[[(5, 5), (5, 5)]]" 0 1800 example_image example_area 20 True False] ne wh
  have a: "draw_paths exact_ops example_area [neutral_layer [[(5, 5), (5, 5)]]] \<noteq> Inl ZeroDivisionError"
    and b: "\<exists>out. scale_paths_to_area exact_ops example_image example_area 20 True False = Inr out"
    and c: "layer_bounds exact_ops 0 1800 [[(5, 5), (5, 5)]] = Inr (1, 1, 11 / 2, 11 / 2, 0)"
    unfolding mm by (simp_all add: Let_def exact_ops_def)
  with ne wh show ?thesis by blast
qed

section \<open>The neutral layer transform and the one-shot fit\<close>

text \<open>
  Two numbers less than 1 apart are truncated to integers at most 1 apart.
\<close>

lemma py_int_close:
  assumes "\<bar>a - b\<bar> < 1"
  shows "\<bar>py_int a - py_int b\<bar> \<le> 1"
proof -
  have fa: "of_int \<lfloor>a\<rfloor> \<le> a" "a < of_int \<lfloor>a\<rfloor> + 1" by linarith+
  have fb: "of_int \<lfloor>b\<rfloor> \<le> b" "b < of_int \<lfloor>b\<rfloor> + 1" by linarith+
  have ca: "a \<le> of_int \<lceil>a\<rceil>" "of_int \<lceil>a\<rceil> < a + 1" by linarith+
  have cb: "b \<le> of_int \<lceil>b\<rceil>" "of_int \<lceil>b\<rceil> < b + 1" by linarith+
  have "\<bar>real_of_int (py_int a) - real_of_int (py_int b)\<bar> < 2"
  proof (cases "0 \<le> a")
    case True
    note a = this
    show ?thesis
    proof (cases "0 \<le> b")
      case True
      with a have "py_int a = \<lfloor>a\<rfloor>" "py_int b = \<lfloor>b\<rfloor>" by (simp_all add: py_int_def)
      then show ?thesis using assms fa fb a True by linarith
    next
      case False
      with a have "py_int a = \<lfloor>a\<rfloor>" "py_int b = \<lceil>b\<rceil>" by (simp_all add: py_int_def)
      then show ?thesis using assms fa cb a False by linarith
    qed
  next
    case False
    note a = this
    show ?thesis
    proof (cases "0 \<le> b")
      case True
      with a have "py_int a = \<lceil>a\<rceil>" "py_int b = \<lfloor>b\<rfloor>" by (simp_all add: py_int_def)
      then show ?thesis using assms ca fb a True by linarith
    next
      case False
      with a have "py_int a = \<lceil>a\<rceil>" "py_int b = \<lceil>b\<rceil>" by (simp_all add: py_int_def)
      then show ?thesis using assms ca cb a False by linarith
    qed
  qed
  then have "\<bar>real_of_int (py_int a - py_int b)\<bar> < 2" by simp
  then have "\<bar>py_int a - py_int b\<bar> < 2" by linarith
  then show ?thesis by simp
qed

text \<open>
  The error of one rounded operation on operands that carry errors themselves, for
  results bounded by \<open>M\<close>.
\<close>

lemma acc_add:
  assumes "accurate fl" and "\<bar>a - a'\<bar> \<le> ea" and "\<bar>b - b'\<bar> \<le> eb"
    and "\<bar>a' + b'\<bar> + ea + eb \<le> M" and "1 \<le> M" and "M \<le> 18446744073709551616"
    and "ea + eb + M / 4503599627370496 \<le> e"
  shows "\<bar>fl_add fl a b - (a' + b')\<bar> \<le> e"
proof -
  have m: "\<bar>a + b\<bar> \<le> M" using assms(2,3,4) by linarith
  then have "\<bar>a + b\<bar> \<le> 2 ^ 64" using assms(6) by simp
  with assms(1) have "\<bar>fl_add fl a b - (a + b)\<bar> \<le> max 1 \<bar>a + b\<bar> / 2 ^ 52"
    by (simp add: accurate_def)
  also have "\<dots> \<le> M / 2 ^ 52"
    using m assms(5) by (intro divide_right_mono) simp_all
  finally have "\<bar>fl_add fl a b - (a + b)\<bar> \<le> M / 4503599627370496" by simp
  then show ?thesis using assms(2,3,7) by linarith
qed

lemma acc_sub:
  assumes "accurate fl" and "\<bar>a - a'\<bar> \<le> ea" and "\<bar>b - b'\<bar> \<le> eb"
    and "\<bar>a' - b'\<bar> + ea + eb \<le> M" and "1 \<le> M" and "M \<le> 18446744073709551616"
    and "ea + eb + M / 4503599627370496 \<le> e"
  shows "\<bar>fl_sub fl a b - (a' - b')\<bar> \<le> e"
proof -
  have m: "\<bar>a - b\<bar> \<le> M" using assms(2,3,4) by linarith
  then have "\<bar>a - b\<bar> \<le> 2 ^ 64" using assms(6) by simp
  with assms(1) have "\<bar>fl_sub fl a b - (a - b)\<bar> \<le> max 1 \<bar>a - b\<bar> / 2 ^ 52"
    by (simp add: accurate_def)
  also have "\<dots> \<le> M / 2 ^ 52"
    using m assms(5) by (intro divide_right_mono) simp_all
  finally have "\<bar>fl_sub fl a b - (a - b)\<bar> \<le> M / 4503599627370496" by simp
  then show ?thesis using assms(2,3,7) by linarith
qed

lemma acc_half:
  assumes "accurate fl" and "\<bar>a - a'\<bar> \<le> ea" and "\<bar>a'\<bar> + ea \<le> M" and "1 \<le> M"
    and "M \<le> 18446744073709551616" and "ea + M / 4503599627370496 \<le> e"
  shows "\<bar>fl_div fl a 2 - a' / 2\<bar> \<le> e"
proof -
  define h where "h = a / 2"
  define h' where "h' = a' / 2"
  have hh: "\<bar>h - h'\<bar> \<le> ea" "\<bar>h\<bar> \<le> M"
    using assms(2,3) unfolding h_def h'_def by linarith+
  then have "(2::real) \<noteq> 0 \<and> \<bar>a / 2\<bar> \<le> 2 ^ 64" using assms(5) by (simp add: h_def)
  with assms(1) have "\<bar>fl_div fl a 2 - a / 2\<bar> \<le> max 1 \<bar>a / 2\<bar> / 2 ^ 52"
    unfolding accurate_def by blast
  also have "\<dots> \<le> M / 2 ^ 52"
    using hh(2) assms(4) unfolding h_def by (intro divide_right_mono) simp_all
  finally have "\<bar>fl_div fl a 2 - h\<bar> \<le> M / 4503599627370496" by (simp add: h_def)
  then have "\<bar>fl_div fl a 2 - h'\<bar> \<le> e" using hh(1) assms(6) by linarith
  then show ?thesis by (simp add: h'_def)
qed

lemma acc_mul:
  assumes "accurate fl" and "\<bar>a - a'\<bar> \<le> ea" and "\<bar>b - b'\<bar> \<le> eb"
    and "\<bar>a'\<bar> \<le> Ma" and "\<bar>b'\<bar> \<le> Mb" and "ea \<le> 1" and "eb \<le> 1"
    and "(Ma + 1) * (Mb + 1) \<le> M" and "1 \<le> M" and "M \<le> 18446744073709551616"
    and "(Ma + 1) * eb + Mb * ea + M / 4503599627370496 \<le> e"
  shows "\<bar>fl_mul fl a b - a' * b'\<bar> \<le> e"
proof -
  have ea0: "0 \<le> ea" and eb0: "0 \<le> eb" using assms(2,3) by linarith+
  have a: "\<bar>a\<bar> \<le> Ma + 1" using assms(2,4,6) by linarith
  have b: "\<bar>b\<bar> \<le> Mb + 1" using assms(3,5,7) by linarith
  have "\<bar>a * b\<bar> = \<bar>a\<bar> * \<bar>b\<bar>" by (simp add: abs_mult)
  also have "\<dots> \<le> (Ma + 1) * (Mb + 1)"
    using a b by (intro mult_mono) simp_all
  finally have m: "\<bar>a * b\<bar> \<le> M" using assms(8) by linarith
  then have "\<bar>a * b\<bar> \<le> 2 ^ 64" using assms(10) by simp
  with assms(1) have "\<bar>fl_mul fl a b - a * b\<bar> \<le> max 1 \<bar>a * b\<bar> / 2 ^ 52"
    by (simp add: accurate_def)
  also have "\<dots> \<le> M / 2 ^ 52"
    using m assms(9) by (intro divide_right_mono) simp_all
  finally have r: "\<bar>fl_mul fl a b - a * b\<bar> \<le> M / 4503599627370496" by simp
  have "a * b - a' * b' = a * (b - b') + (a - a') * b'" by (simp add: algebra_simps)
  then have "\<bar>a * b - a' * b'\<bar> \<le> \<bar>a * (b - b')\<bar> + \<bar>(a - a') * b'\<bar>" by simp
  also have "\<bar>a * (b - b')\<bar> = \<bar>a\<bar> * \<bar>b - b'\<bar>" by (simp add: abs_mult)
  also have "\<bar>(a - a') * b'\<bar> = \<bar>a - a'\<bar> * \<bar>b'\<bar>" by (simp add: abs_mult)
  also have "\<bar>a\<bar> * \<bar>b - b'\<bar> + \<bar>a - a'\<bar> * \<bar>b'\<bar> \<le> (Ma + 1) * eb + ea * Mb"
    using a assms(3) assms(2) assms(5) ea0 eb0
    by (intro add_mono mult_mono) simp_all
  finally have "\<bar>a * b - a' * b'\<bar> \<le> (Ma + 1) * eb + Mb * ea" by (simp add: mult.commute)
  with r assms(11) show ?thesis by linarith
qed

lemma acc_quot:
  assumes "accurate fl" and "b \<noteq> 0" and "\<bar>a / b\<bar> \<le> M" and "1 \<le> M"
    and "M \<le> 9223372036854775808"
  shows "\<bar>fl_div fl a b\<bar> \<le> 2 * M"
proof -
  have "\<bar>a / b\<bar> \<le> 2 ^ 64" using assms(3,5) by simp
  with assms(1,2) have "\<bar>fl_div fl a b - a / b\<bar> \<le> max 1 \<bar>a / b\<bar> / 2 ^ 52"
    unfolding accurate_def by blast
  also have "\<dots> \<le> M / 2 ^ 52"
    using assms(3,4) by (intro divide_right_mono) simp_all
  also have "\<dots> \<le> M" using assms(4) by (simp add: field_simps)
  finally show ?thesis using assms(3) by linarith
qed

lemma axis_close:
  fixes x mn pw al aw :: int and s :: real
  assumes acc: "accurate fl"
    and bx: "\<bar>x\<bar> \<le> 2 ^ 20" and bmn: "\<bar>mn\<bar> \<le> 2 ^ 20"
    and pw1: "1 \<le> pw" and pw2: "pw \<le> 2 ^ 21"
    and bal: "\<bar>al\<bar> \<le> 2 ^ 21" and baw: "\<bar>aw\<bar> \<le> 2 ^ 22"
    and bs: "\<bar>s\<bar> \<le> 2 ^ 23"
  shows "\<bar>fl_add fl
            (fl_mul fl (fl_sub fl (real_of_int x)
                          (fl_add fl (real_of_int mn) (fl_div fl (real_of_int pw) 2)))
                       (fl_mul fl s 1))
            (fl_add fl (fl_add fl (real_of_int al) (fl_div fl (real_of_int aw) 2)) 0)
          - fl_add fl
              (fl_add fl (real_of_int al)
                 (fl_div fl (fl_sub fl (real_of_int aw) (fl_mul fl (real_of_int pw) s)) 2))
              (fl_mul fl (real_of_int (x - mn)) s)\<bar> < 1"
proof -
  define X where "X = real_of_int x"
  define MN where "MN = real_of_int mn"
  define PW where "PW = real_of_int pw"
  define AL where "AL = real_of_int al"
  define AW where "AW = real_of_int aw"
  define XM where "XM = real_of_int (x - mn)"
  have bX: "\<bar>X\<bar> \<le> 1048576" using bx by (simp add: X_def)
  have bMN: "\<bar>MN\<bar> \<le> 1048576" using bmn by (simp add: MN_def)
  have bPW: "1 \<le> PW" "PW \<le> 2097152" "\<bar>PW\<bar> \<le> 2097152"
    using pw1 pw2 by (simp_all add: PW_def)
  have bAL: "\<bar>AL\<bar> \<le> 2097152" using bal by (simp add: AL_def)
  have bAW: "\<bar>AW\<bar> \<le> 4194304" using baw by (simp add: AW_def)
  have bS: "\<bar>s\<bar> \<le> 8388608" using bs by simp
  have XM: "XM = X - MN" by (simp add: XM_def X_def MN_def)
  have bXM: "\<bar>XM\<bar> \<le> 2097152" using bX bMN unfolding XM by linarith
  define P where "P = PW * s"
  have "\<bar>PW * s\<bar> = \<bar>PW\<bar> * \<bar>s\<bar>" by (simp add: abs_mult)
  also have "\<dots> \<le> 2097152 * 8388608"
    using bPW(3) bS by (intro mult_mono) simp_all
  finally have bP: "\<bar>P\<bar> \<le> 17592186044416" by (simp add: P_def)
  define Q where "Q = XM * s"
  have "\<bar>XM * s\<bar> = \<bar>XM\<bar> * \<bar>s\<bar>" by (simp add: abs_mult)
  also have "\<dots> \<le> 2097152 * 8388608"
    using bXM bS by (intro mult_mono) simp_all
  finally have bQ: "\<bar>Q\<bar> \<le> 17592186044416" by (simp add: Q_def)
  define C where "C = X - (MN + PW / 2)"
  have bC: "\<bar>C\<bar> \<le> 4194304" using bX bMN bPW unfolding C_def by linarith
  define R where "R = C * s"
  have "\<bar>C * s\<bar> = \<bar>C\<bar> * \<bar>s\<bar>" by (simp add: abs_mult)
  also have "\<dots> \<le> 4194304 * 8388608"
    using bC bS by (intro mult_mono) simp_all
  finally have bR: "\<bar>R\<bar> \<le> 35184372088832" by (simp add: R_def)
  \<comment> \<open>the one-shot fit\<close>
  define m1 where "m1 = fl_mul fl PW s"
  have f1: "\<bar>m1 - P\<bar> \<le> 1 / 128"
    unfolding m1_def P_def
    by (rule acc_mul [OF acc, where ea = 0 and eb = 0 and Ma = 2097152 and Mb = 8388608
          and M = 35184372088832]) (use bPW bS in simp_all)
  define t where "t = fl_sub fl AW m1"
  have f2: "\<bar>t - (AW - P)\<bar> \<le> 2 / 128"
    unfolding t_def
  proof (rule acc_sub [OF acc, where ea = 0 and eb = "1 / 128" and M = 35184372088832])
    show "\<bar>AW - AW\<bar> \<le> 0" by simp
    show "\<bar>m1 - P\<bar> \<le> 1 / 128" by (rule f1)
    show "\<bar>AW - P\<bar> + 0 + 1 / 128 \<le> 35184372088832" using bAW bP by linarith
  qed simp_all
  define h where "h = fl_div fl t 2"
  have f3: "\<bar>h - (AW - P) / 2\<bar> \<le> 3 / 128"
    unfolding h_def
  proof (rule acc_half [OF acc, where ea = "2 / 128" and M = 35184372088832])
    show "\<bar>t - (AW - P)\<bar> \<le> 2 / 128" by (rule f2)
    show "\<bar>AW - P\<bar> + 2 / 128 \<le> 35184372088832" using bAW bP by linarith
  qed simp_all
  define off where "off = fl_add fl AL h"
  have f4: "\<bar>off - (AL + (AW - P) / 2)\<bar> \<le> 4 / 128"
    unfolding off_def
  proof (rule acc_add [OF acc, where ea = 0 and eb = "3 / 128" and M = 35184372088832])
    show "\<bar>AL - AL\<bar> \<le> 0" by simp
    show "\<bar>h - (AW - P) / 2\<bar> \<le> 3 / 128" by (rule f3)
    show "\<bar>AL + (AW - P) / 2\<bar> + 0 + 3 / 128 \<le> 35184372088832" using bAL bAW bP unfolding diff_divide_distrib by linarith
  qed simp_all
  define xs where "xs = fl_mul fl XM s"
  have f5: "\<bar>xs - Q\<bar> \<le> 1 / 128"
    unfolding xs_def Q_def
    by (rule acc_mul [OF acc, where ea = 0 and eb = 0 and Ma = 2097152 and Mb = 8388608
          and M = 35184372088832]) (use bXM bS in simp_all)
  define F where "F = fl_add fl off xs"
  have f6: "\<bar>F - (AL + (AW - P) / 2 + Q)\<bar> \<le> 7 / 128"
    unfolding F_def
  proof (rule acc_add [OF acc, where ea = "4 / 128" and eb = "1 / 128" and M = 70368744177664])
    show "\<bar>off - (AL + (AW - P) / 2)\<bar> \<le> 4 / 128" by (rule f4)
    show "\<bar>xs - Q\<bar> \<le> 1 / 128" by (rule f5)
    show "\<bar>AL + (AW - P) / 2 + Q\<bar> + 4 / 128 + 1 / 128 \<le> 70368744177664" using bAL bAW bP bQ unfolding diff_divide_distrib by linarith
  qed simp_all
  \<comment> \<open>the layer transform\<close>
  define hw where "hw = fl_div fl PW 2"
  have d1: "\<bar>hw - PW / 2\<bar> \<le> 1 / 2147483648"
    unfolding hw_def
    by (rule acc_half [OF acc, where ea = 0 and M = 2097152]) (use bPW in simp_all)
  define pcx where "pcx = fl_add fl MN hw"
  have d2: "\<bar>pcx - (MN + PW / 2)\<bar> \<le> 1 / 536870912"
    unfolding pcx_def
  proof (rule acc_add [OF acc, where ea = 0 and eb = "1 / 2147483648" and M = 4194304])
    show "\<bar>MN - MN\<bar> \<le> 0" by simp
    show "\<bar>hw - PW / 2\<bar> \<le> 1 / 2147483648" by (rule d1)
    show "\<bar>MN + PW / 2\<bar> + 0 + 1 / 2147483648 \<le> 4194304" using bMN bPW by linarith
  qed simp_all
  define d where "d = fl_sub fl X pcx"
  have d3: "\<bar>d - C\<bar> \<le> 1 / 268435456"
    unfolding d_def C_def
  proof (rule acc_sub [OF acc, where ea = 0 and eb = "1 / 536870912" and M = 8388608])
    show "\<bar>X - X\<bar> \<le> 0" by simp
    show "\<bar>pcx - (MN + PW / 2)\<bar> \<le> 1 / 536870912" by (rule d2)
    show "\<bar>X - (MN + PW / 2)\<bar> + 0 + 1 / 536870912 \<le> 8388608" using bX bMN bPW by linarith
  qed simp_all
  define k where "k = fl_mul fl s 1"
  have d4: "\<bar>k - s * 1\<bar> \<le> 1 / 134217728"
    unfolding k_def
    by (rule acc_mul [OF acc, where ea = 0 and eb = 0 and Ma = 8388608 and Mb = 1
          and M = 33554432]) (use bS in simp_all)
  define x3 where "x3 = fl_mul fl d k"
  have d5: "\<bar>x3 - C * s\<bar> \<le> 11 / 128"
    unfolding x3_def
  proof (rule acc_mul [OF acc, where ea = "1 / 268435456" and eb = "1 / 134217728"
          and Ma = 4194304 and Mb = 8388608 and M = 70368744177664])
    show "\<bar>d - C\<bar> \<le> 1 / 268435456" by (rule d3)
    show "\<bar>k - s\<bar> \<le> 1 / 134217728" using d4 by simp
    show "\<bar>C\<bar> \<le> 4194304" by (rule bC)
    show "\<bar>s\<bar> \<le> 8388608" by (rule bS)
  qed simp_all
  define ha where "ha = fl_div fl AW 2"
  have d6: "\<bar>ha - AW / 2\<bar> \<le> 1 / 1073741824"
    unfolding ha_def
    by (rule acc_half [OF acc, where ea = 0 and M = 4194304]) (use bAW in simp_all)
  define cx where "cx = fl_add fl AL ha"
  have d7: "\<bar>cx - (AL + AW / 2)\<bar> \<le> 1 / 268435456"
    unfolding cx_def
  proof (rule acc_add [OF acc, where ea = 0 and eb = "1 / 1073741824" and M = 8388608])
    show "\<bar>AL - AL\<bar> \<le> 0" by simp
    show "\<bar>ha - AW / 2\<bar> \<le> 1 / 1073741824" by (rule d6)
    show "\<bar>AL + AW / 2\<bar> + 0 + 1 / 1073741824 \<le> 8388608" using bAL bAW by linarith
  qed simp_all
  define c where "c = fl_add fl cx 0"
  have d8: "\<bar>c - (AL + AW / 2 + 0)\<bar> \<le> 1 / 134217728"
    unfolding c_def
  proof (rule acc_add [OF acc, where ea = "1 / 268435456" and eb = 0 and M = 8388608])
    show "\<bar>cx - (AL + AW / 2)\<bar> \<le> 1 / 268435456" by (rule d7)
    show "\<bar>0 - 0\<bar> \<le> (0::real)" by simp
    show "\<bar>AL + AW / 2 + 0\<bar> + 1 / 268435456 + 0 \<le> 8388608" using bAL bAW by linarith
  qed simp_all
  define D where "D = fl_add fl x3 c"
  have d9: "\<bar>D - (R + (AL + AW / 2 + 0))\<bar> \<le> 14 / 128"
    unfolding D_def
  proof (rule acc_add [OF acc, where ea = "11 / 128" and eb = "1 / 134217728"
          and M = 70368744177664])
    show "\<bar>x3 - R\<bar> \<le> 11 / 128" using d5 by (simp add: R_def)
    show "\<bar>c - (AL + AW / 2 + 0)\<bar> \<le> 1 / 134217728" by (rule d8)
    show "\<bar>R + (AL + AW / 2 + 0)\<bar> + 11 / 128 + 1 / 134217728 \<le> 70368744177664" using bR bAL bAW by linarith
  qed simp_all
  have same: "R + (AL + AW / 2 + 0) = AL + (AW - P) / 2 + Q"
    unfolding R_def C_def P_def Q_def XM by (simp add: field_simps)
  from f6 d9 have "\<bar>D - F\<bar> < 1" unfolding same by linarith
  then show ?thesis
    unfolding D_def x3_def c_def cx_def ha_def k_def d_def pcx_def hw_def
      F_def xs_def off_def h_def t_def m1_def
      X_def MN_def PW_def AL_def AW_def XM_def .
qed

text \<open>The arithmetic that never rounds is accurate.\<close>

lemma accurate_exact_ops: "accurate exact_ops"
  by (simp add: accurate_def exact_ops_def le_max_iff_disj)

text \<open>\<^verbatim>\<open>min\<close> and \<^verbatim>\<open>max\<close> of a non-empty list are elements and bounds of it.\<close>

lemma py_min_spec:
  assumes "xs \<noteq> []"
  shows "\<exists>m. py_min xs = Inr m \<and> m \<in> set xs \<and> (\<forall>x \<in> set xs. m \<le> x)"
proof (cases xs)
  case Nil
  with assms show ?thesis by simp
next
  case (Cons x rest)
  have e: "fold min rest x = Min (set (x # rest))" by (simp only: Min.set_eq_fold)
  have a: "fold min rest x \<in> set (x # rest)" unfolding e by (rule Min_in) simp_all
  have b: "\<forall>y \<in> set (x # rest). fold min rest x \<le> y"
    unfolding e by (intro ballI Min_le) simp_all
  show ?thesis unfolding Cons py_min_def using a b by simp
qed

lemma py_max_spec:
  assumes "xs \<noteq> []"
  shows "\<exists>m. py_max xs = Inr m \<and> m \<in> set xs \<and> (\<forall>x \<in> set xs. x \<le> m)"
proof (cases xs)
  case Nil
  with assms show ?thesis by simp
next
  case (Cons x rest)
  have e: "fold max rest x = Max (set (x # rest))" by (simp only: Max.set_eq_fold)
  have a: "fold max rest x \<in> set (x # rest)" unfolding e by (rule Max_in) simp_all
  have b: "\<forall>y \<in> set (x # rest). y \<le> fold max rest x"
    unfolding e by (intro ballI Max_ge) simp_all
  show ?thesis unfolding Cons py_max_def using a b by simp
qed

lemma extent_bounds:
  fixes xs :: "int list"
  assumes ne: "xs \<noteq> []" and b: "\<forall>x \<in> set xs. \<bar>x\<bar> \<le> 2 ^ 20"
  shows "\<exists>mn mx. py_min xs = Inr mn \<and> py_max xs = Inr mx \<and> \<bar>mn\<bar> \<le> 2 ^ 20 \<and>
           1 \<le> or_one (mx - mn) \<and> or_one (mx - mn) \<le> 2 ^ 21"
proof -
  from py_min_spec [OF ne] obtain mn
    where mn: "py_min xs = Inr mn" "mn \<in> set xs" "\<forall>x \<in> set xs. mn \<le> x" by blast
  from py_max_spec [OF ne] obtain mx
    where mx: "py_max xs = Inr mx" "mx \<in> set xs" "\<forall>x \<in> set xs. x \<le> mx" by blast
  have le: "mn \<le> mx" using mn(3) mx(2) by blast
  have bmn: "\<bar>mn\<bar> \<le> 1048576" using b mn(2) by fastforce
  have bmx: "\<bar>mx\<bar> \<le> 1048576" using b mx(2) by fastforce
  have "1 \<le> or_one (mx - mn)" using le by (simp add: or_one_def)
  moreover have "or_one (mx - mn) \<le> 2097152" using bmn bmx by (auto simp: or_one_def)
  ultimately show ?thesis using mn(1) mx(1) bmn by auto
qed

text \<open>The rounded quotient of an extent of the available rectangle by an extent of the bounds.\<close>

lemma quotient_bound:
  fixes aw pw :: int
  assumes acc: "accurate fl" and pw: "1 \<le> pw" and aw: "\<bar>aw\<bar> \<le> 2 ^ 22"
  shows "\<bar>fl_div fl (real_of_int aw) (real_of_int pw)\<bar> \<le> 2 ^ 23"
proof -
  have p: "1 \<le> real_of_int pw" using pw by simp
  have "\<bar>real_of_int aw / real_of_int pw\<bar> = \<bar>real_of_int aw\<bar> / real_of_int pw"
    using p by simp
  also have "\<dots> \<le> \<bar>real_of_int aw\<bar> / 1"
    using p by (intro divide_left_mono) simp_all
  also have "\<dots> \<le> 4194304" using aw by simp
  finally have "\<bar>real_of_int aw / real_of_int pw\<bar> \<le> 4194304" .
  moreover have "real_of_int pw \<noteq> 0" using p by simp
  ultimately have "\<bar>fl_div fl (real_of_int aw) (real_of_int pw)\<bar> \<le> 2 * 4194304"
    using acc by (intro acc_quot) simp_all
  then show ?thesis by simp
qed

text \<open>
  Counterexample to C3 as stated. For the same square and the same area the neutral
  layer transform and the one-shot fit with margin 20 give placements 200 units apart:
  the one-shot fit measures its rectangle from the left and top edges of the area,
  \<^verbatim>\<open>draw\<close> from the right and bottom edges of the top-left exclusion. And when the
  one-shot fit is given the area with these edges moved, the placements still differ
  for an image larger than the bounds of its points: the one-shot fit scales by the
  size of the image, \<^verbatim>\<open>draw\<close> by the extents of the bounds. They differ as well for
  an image of the size of the bounds whose points do not start at the origin: the
  one-shot fit places the origin of the image, \<^verbatim>\<open>draw\<close> the centre of the bounds.
\<close>

theorem neutral_transform_counterexample:
  "scale_paths_to_area exact_ops \<lparr> paths = [square_path], width = 100, height = 100 \<rparr>
      example_area 20 True False
     = Inr [[(20, 720), (620, 720), (620, 1320), (20, 1320)]] \<and>
   scale_paths_to_area exact_ops wide_image (usable_target example_area) 20 True False
     = Inr [[(220, 920), (420, 920), (420, 1120), (220, 1120)]] \<and>
   draw_paths exact_ops example_area [neutral_layer [square_path]]
     = Inr [[(220, 920), (620, 920), (620, 1320), (220, 1320)]] \<and>
   scale_paths_to_area exact_ops
      \<lparr> paths = [[(50, 50), (150, 50), (150, 150), (50, 150)]], width = 100, height = 100 \<rparr>
      (usable_target example_area) 20 True False
     = Inr [[(420, 1120), (820, 1120), (420, 1520)]] \<and>
   draw_paths exact_ops example_area
      [neutral_layer [[(50, 50), (150, 50), (150, 150), (50, 150)]]]
     = Inr [[(220, 920), (620, 920), (620, 1320), (220, 1320)]]"
  by (simp add: scale_paths_to_area_def fit_params_def draw_paths_def layer_transform_def
      draw_available_def layer_bounds_def py_min_def py_max_def or_one_def
      transform_point_def neutral_layer_def py_truediv_def bind_result_def place_point_def
      square_path_def example_area_def wide_image_def usable_target_def py_int_def
      is_inside_def exact_ops_def)

text \<open>
  C3, amended. With rotation 0, no flip, scale 1.0 and offset (0, 0), the layer transform
  places every point of a layer within one unit, in each coordinate, of where the
  one-shot fit (aspect locked, full L-shape disallowed, margin 20) places it when the
  fit is given as source the layer's points moved so that their bounds start at the
  origin, with the extents of the bounds (1 for an extent of 0) as image width and
  height, and as target the area whose left and top edges are moved to
  \<open>max left top_excl_right\<close> and \<open>max top top_excl_bottom\<close>. This holds for every
  layer that has a point, every area, coordinates up to \<open>2^20\<close> in magnitude, and every
  arithmetic as accurate as rounding to the nearest double is.
\<close>

theorem neutral_transform_near_fit:
  assumes acc: "accurate fl" and sa: "screen_area area" and sp: "screen_points pths"
    and ne: "concat pths \<noteq> []"
  shows "\<exists>min_x min_y max_x max_y f prm.
           py_min (map fst (concat pths)) = Inr min_x \<and>
           py_min (map snd (concat pths)) = Inr min_y \<and>
           py_max (map fst (concat pths)) = Inr max_x \<and>
           py_max (map snd (concat pths)) = Inr max_y \<and>
           layer_transform fl area (neutral_layer pths) = Inr f \<and>
           fit_params fl
             (bounding_source pths min_x min_y (or_one (max_x - min_x)) (or_one (max_y - min_y)))
             (usable_target area) 20 True False = Inr prm \<and>
           list_all2 (list_all2 near_points)
             (map (map f) pths)
             (map (map (place_point fl prm))
                (paths (bounding_source pths min_x min_y
                          (or_one (max_x - min_x)) (or_one (max_y - min_y)))))"
proof -
  have pts: "\<forall>p \<in> set (concat pths). \<bar>fst p\<bar> \<le> 2 ^ 20 \<and> \<bar>snd p\<bar> \<le> 2 ^ 20"
    using sp unfolding screen_points_def list_all_iff .
  have nex: "map fst (concat pths) \<noteq> []" and ney: "map snd (concat pths) \<noteq> []"
    using ne by simp_all
  have bxs: "\<forall>x \<in> set (map fst (concat pths)). \<bar>x\<bar> \<le> 2 ^ 20" using pts by auto
  have bys: "\<forall>y \<in> set (map snd (concat pths)). \<bar>y\<bar> \<le> 2 ^ 20" using pts by auto
  from extent_bounds [OF nex bxs] obtain min_x max_x
    where mnx: "py_min (map fst (concat pths)) = Inr min_x"
      and mxx: "py_max (map fst (concat pths)) = Inr max_x"
      and bmnx: "\<bar>min_x\<bar> \<le> 2 ^ 20"
      and pw1: "1 \<le> or_one (max_x - min_x)" and pw2: "or_one (max_x - min_x) \<le> 2 ^ 21"
    by blast
  from extent_bounds [OF ney bys] obtain min_y max_y
    where mny: "py_min (map snd (concat pths)) = Inr min_y"
      and mxy: "py_max (map snd (concat pths)) = Inr max_y"
      and bmny: "\<bar>min_y\<bar> \<le> 2 ^ 20"
      and ph1: "1 \<le> or_one (max_y - min_y)" and ph2: "or_one (max_y - min_y) \<le> 2 ^ 21"
    by blast
  define pw where "pw = or_one (max_x - min_x)"
  define ph where "ph = or_one (max_y - min_y)"
  define ml where "ml = max (left area) (top_excl_right area)"
  define mt where "mt = max (top_a area) (top_excl_bottom area)"
  define al where "al = ml + 20"
  define atop where "atop = mt + 20"
  define aw where "aw = cutout_left area - ml - 40"
  define ah where "ah = bottom area - mt - 40"
  define s where "s = min (fl_div fl (real_of_int aw) (real_of_int pw))
                          (fl_div fl (real_of_int ah) (real_of_int ph))"
  define cx where "cx = fl_add fl (real_of_int al) (fl_div fl (real_of_int aw) 2)"
  define cy where "cy = fl_add fl (real_of_int atop) (fl_div fl (real_of_int ah) 2)"
  define pcx where "pcx = fl_add fl (real_of_int min_x) (fl_div fl (real_of_int pw) 2)"
  define pcy where "pcy = fl_add fl (real_of_int min_y) (fl_div fl (real_of_int ph) 2)"
  define ox where "ox = fl_add fl (real_of_int al)
      (fl_div fl (fl_sub fl (real_of_int aw) (fl_mul fl (real_of_int pw) s)) 2)"
  define oy where "oy = fl_add fl (real_of_int atop)
      (fl_div fl (fl_sub fl (real_of_int ah) (fl_mul fl (real_of_int ph) s)) 2)"
  note pw1 = pw1 [folded pw_def] and pw2 = pw2 [folded pw_def]
    and ph1 = ph1 [folded ph_def] and ph2 = ph2 [folded ph_def]
  have sa': "\<bar>left area\<bar> \<le> 1048576" "\<bar>top_a area\<bar> \<le> 1048576" "\<bar>bottom area\<bar> \<le> 1048576"
    "\<bar>cutout_left area\<bar> \<le> 1048576" "\<bar>top_excl_right area\<bar> \<le> 1048576"
    "\<bar>top_excl_bottom area\<bar> \<le> 1048576"
    using sa by (simp_all add: screen_area_def)
  have bml: "\<bar>ml\<bar> \<le> 1048576" and bmt: "\<bar>mt\<bar> \<le> 1048576"
    using sa' unfolding ml_def mt_def by linarith+
  have bal: "\<bar>al\<bar> \<le> 2 ^ 21" and bat: "\<bar>atop\<bar> \<le> 2 ^ 21"
    using bml bmt by (simp_all add: al_def atop_def)
  have baw: "\<bar>aw\<bar> \<le> 2 ^ 22" and bah: "\<bar>ah\<bar> \<le> 2 ^ 22"
    using bml bmt sa' by (simp_all add: aw_def ah_def)
  have bqx: "\<bar>fl_div fl (real_of_int aw) (real_of_int pw)\<bar> \<le> 2 ^ 23"
    by (rule quotient_bound [OF acc pw1 baw])
  have bqy: "\<bar>fl_div fl (real_of_int ah) (real_of_int ph)\<bar> \<le> 2 ^ 23"
    by (rule quotient_bound [OF acc ph1 bah])
  have bs: "\<bar>s\<bar> \<le> 2 ^ 23" using bqx bqy by (simp add: s_def min_def)
  have da: "draw_available fl area = (aw, ah, cx, cy)"
    by (simp add: draw_available_def Let_def cx_def cy_def aw_def ah_def al_def atop_def
        ml_def mt_def)
  have lb: "layer_bounds fl aw ah pths = Inr (pw, ph, pcx, pcy, s)"
    using pw1 ph1
    by (simp add: layer_bounds_def mnx mny mxx mxy bind_result_def py_truediv_def Let_def
        s_def pcx_def pcy_def pw_def [symmetric] ph_def [symmetric])
  have lt: "layer_transform fl area (neutral_layer pths)
              = Inr (transform_point fl cx cy pcx pcy s (neutral_layer pths))"
    by (simp add: layer_transform_def da neutral_layer_def lb bind_result_def)
  have fp: "fit_params fl (bounding_source pths min_x min_y pw ph) (usable_target area)
              20 True False = Inr (s, s, ox, oy)"
    using pw1 ph1
    by (simp add: fit_params_def bounding_source_def usable_target_def py_truediv_def
        bind_result_def Let_def s_def ox_def oy_def aw_def ah_def al_def atop_def
        ml_def mt_def)
  have close: "near_points (transform_point fl cx cy pcx pcy s (neutral_layer pths) p)
                 (place_point fl (s, s, ox, oy) (case p of (x, y) \<Rightarrow> (x - min_x, y - min_y)))"
    if p: "p \<in> set (concat pths)" for p
  proof -
    obtain x y where xy: "p = (x, y)" by (cases p)
    have bx: "\<bar>x\<bar> \<le> 2 ^ 20" and byy: "\<bar>y\<bar> \<le> 2 ^ 20" using bspec [OF pts p] by (simp_all add: xy)
    have "\<bar>py_int (fl_add fl (fl_mul fl (fl_sub fl (real_of_int x) pcx) (fl_mul fl s 1))
                      (fl_add fl cx 0))
           - py_int (fl_add fl ox (fl_mul fl (real_of_int (x - min_x)) s))\<bar> \<le> 1"
      unfolding pcx_def cx_def ox_def
      by (rule py_int_close, rule axis_close [OF acc bx bmnx pw1 pw2 bal baw bs])
    moreover
    have "\<bar>py_int (fl_add fl (fl_mul fl (fl_sub fl (real_of_int y) pcy) (fl_mul fl s 1))
                      (fl_add fl cy 0))
           - py_int (fl_add fl oy (fl_mul fl (real_of_int (y - min_y)) s))\<bar> \<le> 1"
      unfolding pcy_def cy_def oy_def
      by (rule py_int_close, rule axis_close [OF acc byy bmny ph1 ph2 bat bah bs])
    ultimately show ?thesis
      by (simp add: xy near_points_def transform_point_def place_point_def neutral_layer_def
          Let_def)
  qed
  have "list_all2 (list_all2 near_points)
          (map (map (transform_point fl cx cy pcx pcy s (neutral_layer pths))) pths)
          (map (map (place_point fl (s, s, ox, oy)))
             (paths (bounding_source pths min_x min_y pw ph)))"
    using close
    by (auto simp add: bounding_source_def list_all2_map1 list_all2_map2 list_all2_same)
  then show ?thesis
    using mnx mny mxx mxy lt fp unfolding pw_def ph_def by blast
qed

theorem neutral_transform_near_fit_witness:
  "accurate exact_ops \<and> screen_area example_area \<and> screen_points [square_path] \<and>
   concat [square_path] \<noteq> [] \<and>
   py_min (map fst (concat [square_path])) = Inr 0 \<and>
   py_min (map snd (concat [square_path])) = Inr 0 \<and>
   py_max (map fst (concat [square_path])) = Inr 100 \<and>
   py_max (map snd (concat [square_path])) = Inr 100 \<and>
   fit_params exact_ops (bounding_source [square_path] 0 0 100 100)
     (usable_target example_area) 20 True False = Inr (4, 4, 220, 920) \<and>
   paths (bounding_source [square_path] 0 0 100 100) = [square_path] \<and>
   (\<exists>f. layer_transform exact_ops example_area (neutral_layer [square_path]) = Inr f \<and>
        list_all2 (list_all2 near_points)
          (map (map f) [square_path])
          (map (map (place_point exact_ops (4, 4, 220, 920))) [square_path]))"
proof -
  have sa: "screen_area example_area" by (simp add: screen_area_def example_area_def)
  have sp: "screen_points [square_path]" by (simp add: screen_points_def square_path_def)
  have ne: "concat [square_path] \<noteq> []" by (simp add: square_path_def)
  have mn: "py_min (map fst (concat [square_path])) = Inr 0"
    "py_min (map snd (concat [square_path])) = Inr 0"
    by (simp_all add: py_min_def square_path_def)
  have mx: "py_max (map fst (concat [square_path])) = Inr 100"
    "py_max (map snd (concat [square_path])) = Inr 100"
    by (simp_all add: py_max_def square_path_def)
  have fp: "fit_params exact_ops (bounding_source [square_path] 0 0 100 100)
              (usable_target example_area) 20 True False = Inr (4, 4, 220, 920)"
    by (simp add: fit_params_def bounding_source_def usable_target_def py_truediv_def
        bind_result_def example_area_def exact_ops_def)
  have bs: "paths (bounding_source [square_path] 0 0 100 100) = [square_path]"
    by (simp add: bounding_source_def square_path_def)
  from neutral_transform_near_fit [OF accurate_exact_ops sa sp ne]
  have "\<exists>f. layer_transform exact_ops example_area (neutral_layer [square_path]) = Inr f \<and>
        list_all2 (list_all2 near_points)
          (map (map f) [square_path])
          (map (map (place_point exact_ops (4, 4, 220, 920))) [square_path])"
    unfolding mn mx by (auto simp: or_one_def fp bs)
  with accurate_exact_ops sa sp ne mn mx fp bs show ?thesis by blast
qed

section \<open>Erase and undo\<close>

lemma sqrt_gt_iff: "0 \<le> r \<Longrightarrow> (r < sqrt x) = (r\<^sup>2 < x)"
  using real_sqrt_less_iff [of "r\<^sup>2" x] by simp

lemma js_nth_update:
  "js_nth xs i = Some v \<Longrightarrow> js_nth (xs [nat i := w]) i = Some w"
  by (auto simp add: js_nth_def split: if_splits)

lemma undo_restores_eraseAt:
  assumes "undo_restores p n s" and "n < 20"
  shows "undo_restores p (Suc n) (eraseAt x y s)"
proof -
  from assms(1) obtain lay where lay: "js_nth (layers s) (activeLayerIndex s) = Some lay"
    and len: "length (pathsHistory s) \<le> n"
    and hd: "if pathsHistory s = [] then active_paths s = p else Some (hd (pathsHistory s)) = p"
    by (auto simp add: undo_restores_def)
  have unchanged: "undo_restores p (Suc n) s"
    using assms(1) by (simp add: undo_restores_def)
  show ?thesis
  proof (cases "activeLayerIndex s < 0 \<or> drawingArea s = None \<or> lpaths lay = None \<or> lpaths lay = Some []")
    case True
    then have "eraseAt x y s = s"
      by (auto simp add: eraseAt_def lay split: option.splits)
    with unchanged show ?thesis by simp
  next
    case False
    then obtain area pths where a: "drawingArea s = Some area" and p: "lpaths lay = Some pths"
      and ne: "pths \<noteq> []" and idx: "\<not> activeLayerIndex s < 0"
      by auto
    have ap: "active_paths s = Some pths" by (simp add: active_paths_def lay p)
    define h where "h = (if length (pathsHistory s) = 0 \<or> last (pathsHistory s) \<noteq> pths
                  then (let pushed = pathsHistory s @ [pths]
                        in if length pushed > 20 then tl pushed else pushed)
                  else pathsHistory s)"
    have hist: "pathsHistory (eraseAt x y s) = h"
      using idx ne by (simp add: eraseAt_def lay a p h_def Let_def)
    have nth: "js_nth (layers (eraseAt x y s)) (activeLayerIndex (eraseAt x y s)) \<noteq> None"
      using idx ne js_nth_update [OF lay] by (simp add: eraseAt_def lay a p Let_def)
    have hne: "h \<noteq> []" using len assms(2) by (auto simp add: h_def Let_def)
    have hlen: "length h \<le> Suc n" using len assms(2) by (auto simp add: h_def Let_def)
    have hhd: "Some (hd h) = p"
      using hd ap len assms(2) by (auto simp add: h_def Let_def split: if_splits)
    show ?thesis
      using nth hne hlen hhd by (simp add: undo_restores_def hist)
  qed
qed

lemma undo_restores_erase_all:
  "undo_restores p n s \<Longrightarrow> n + length cs \<le> 20 \<Longrightarrow> undo_restores p (n + length cs) (erase_all cs s)"
proof (induction cs arbitrary: n s)
  case Nil then show ?case by simp
next
  case (Cons c cs)
  from Cons.prems have "undo_restores p (Suc n) (eraseAt (fst c) (snd c) s)"
    by (intro undo_restores_eraseAt) simp_all
  from Cons.IH [OF this] Cons.prems(2) show ?case by simp
qed

lemma undo_times_restores:
  "undo_restores p n s \<Longrightarrow> \<exists>s'. undo_times n s = Inr s' \<and> active_paths s' = p"
proof (induction n arbitrary: s)
  case 0
  then show ?case by (simp add: undo_restores_def)
next
  case (Suc n)
  from Suc.prems obtain lay where lay: "js_nth (layers s) (activeLayerIndex s) = Some lay"
    by (auto simp add: undo_restores_def)
  then have idx: "0 \<le> activeLayerIndex s" by (auto simp add: js_nth_def split: if_splits)
  show ?case
  proof (cases "pathsHistory s = []")
    case True
    then have u: "undoErase s = Inr s" by (simp add: undoErase_def)
    from Suc.prems True have "undo_restores p n s" by (simp add: undo_restores_def)
    from Suc.IH [OF this] u show ?thesis by (simp add: bind_result_def)
  next
    case False
    define s' where "s' = s \<lparr> processedPaths := Some (last (pathsHistory s)),
                         pathsHistory := butlast (pathsHistory s),
                         layers := (layers s) [nat (activeLayerIndex s) :=
                                      lay \<lparr> lpaths := Some (last (pathsHistory s)) \<rparr>] \<rparr>"
    have u: "undoErase s = Inr s'"
      using False idx by (simp add: undoErase_def lay s'_def Let_def)
    have nth: "js_nth (layers s') (activeLayerIndex s') = Some (lay \<lparr> lpaths := Some (last (pathsHistory s)) \<rparr>)"
      using js_nth_update [OF lay] by (simp add: s'_def)
    have ap: "active_paths s' = Some (last (pathsHistory s))"
      by (simp add: active_paths_def nth)
    have "undo_restores p n s'"
    proof (cases "butlast (pathsHistory s) = []")
      case True
      with False have "pathsHistory s = [last (pathsHistory s)]"
        by (metis append_butlast_last_id append_Nil)
      then have "hd (pathsHistory s) = last (pathsHistory s)" by (metis list.sel(1))
      with Suc.prems False True nth ap show ?thesis
        by (simp add: undo_restores_def s'_def)
    next
      case b: False
      then have "hd (butlast (pathsHistory s)) = hd (pathsHistory s)"
        by (metis False append_butlast_last_id hd_append2)
      moreover from Suc.prems have "length (pathsHistory s) \<le> Suc n"
        by (simp add: undo_restores_def)
      then have "length (butlast (pathsHistory s)) \<le> n"
        by simp
      ultimately show ?thesis
        using Suc.prems False b nth by (simp add: undo_restores_def s'_def)
    qed
    from Suc.IH [OF this] u show ?thesis by (simp add: bind_result_def)
  qed
qed

lemma erase_then_undo:
  assumes "js_nth (layers s) (activeLayerIndex s) \<noteq> None"
    and "pathsHistory s = []"
    and "length cs \<le> 20"
  shows "\<exists>s'. undo_times (length cs) (erase_all cs s) = Inr s' \<and> active_paths s' = active_paths s"
proof -
  from assms(1,2) have "undo_restores (active_paths s) 0 s"
    by (simp add: undo_restores_def)
  from undo_restores_erase_all [OF this, of cs] assms(3)
  have "undo_restores (active_paths s) (length cs) (erase_all cs s)" by simp
  then show ?thesis by (rule undo_times_restores)
qed

lemma erase_hit_example:
  "eraseAt 712 1324 example_editor =
     example_editor \<lparr> layers := [\<lparr> lpaths = Some [[(0, 0), (100, 0)]] \<rparr>],
       processedPaths := Some [[(0, 0), (100, 0)]],
       pathsHistory := [[[(0, 0), (100, 0), (100, 100)]]] \<rparr>"
  by (simp add: eraseAt_def js_nth_def erase_keeps_def transformToCanvas_def
      example_editor_def scenario_area_def js_min_def js_max_def or_one_def Let_def
      sqrt_gt_iff power2_eq_square)

lemma erase_miss_example:
  "eraseAt 0 0 (example_editor \<lparr> layers := [\<lparr> lpaths = Some [[(0, 0), (100, 0)]] \<rparr>],
       processedPaths := Some [[(0, 0), (100, 0)]],
       pathsHistory := [[[(0, 0), (100, 0), (100, 100)]]] \<rparr>) =
     example_editor \<lparr> layers := [\<lparr> lpaths = Some [[(0, 0), (100, 0)]] \<rparr>],
       processedPaths := Some [[(0, 0), (100, 0)]],
       pathsHistory := [[[(0, 0), (100, 0), (100, 100)]], [[(0, 0), (100, 0)]]] \<rparr>"
  by (simp add: eraseAt_def js_nth_def erase_keeps_def transformToCanvas_def
      example_editor_def scenario_area_def js_min_def js_max_def or_one_def Let_def
      sqrt_gt_iff power2_eq_square)

lemma erase_miss_again_example:
  "eraseAt 0 0 (example_editor \<lparr> layers := [\<lparr> lpaths = Some [[(0, 0), (100, 0)]] \<rparr>],
       processedPaths := Some [[(0, 0), (100, 0)]],
       pathsHistory := [[[(0, 0), (100, 0), (100, 100)]], [[(0, 0), (100, 0)]]] \<rparr>) =
     example_editor \<lparr> layers := [\<lparr> lpaths = Some [[(0, 0), (100, 0)]] \<rparr>],
       processedPaths := Some [[(0, 0), (100, 0)]],
       pathsHistory := [[[(0, 0), (100, 0), (100, 100)]], [[(0, 0), (100, 0)]]] \<rparr>"
  by (simp add: eraseAt_def js_nth_def erase_keeps_def transformToCanvas_def
      example_editor_def scenario_area_def js_min_def js_max_def or_one_def Let_def
      sqrt_gt_iff power2_eq_square)

lemma undo_twice_example:
  "undo_times 2 (example_editor \<lparr> layers := [\<lparr> lpaths = Some [[(0, 0), (100, 0)]] \<rparr>],
       processedPaths := Some [[(0, 0), (100, 0)]],
       pathsHistory := [[[(0, 0), (100, 0), (100, 100)]], [[(0, 0), (100, 0)]]] \<rparr>)
     = Inr example_editor"
  by (simp add: numeral_2_eq_2 undoErase_def js_nth_def bind_result_def example_editor_def Let_def)

text \<open>
  Counterexample to C5 as stated, with an undo stack that is not empty before the
  erases. After one erase that removes the point (100, 100), the active layer holds the
  path of two points and the stack the path of three. Two more erases that remove
  nothing push one snapshot only (the second finds the stack's top equal to the path
  set), and the two undo operations that follow pop that snapshot and the older one: the
  layer ends with the path of three points, not with the path of two it had before the
  two erases.
\<close>

theorem erase_undo_counterexample:
  "active_paths (eraseAt 712 1324 example_editor) = Some [[(0, 0), (100, 0)]] \<and>
   undo_times 2 (erase_all [(0, 0), (0, 0)] (eraseAt 712 1324 example_editor))
     = Inr example_editor \<and>
   active_paths example_editor = Some [[(0, 0), (100, 0), (100, 100)]]"
proof -
  have "active_paths (eraseAt 712 1324 example_editor) = Some [[(0, 0), (100, 0)]]"
    unfolding erase_hit_example by (simp add: active_paths_def js_nth_def example_editor_def)
  moreover have "undo_times 2 (erase_all [(0, 0), (0, 0)] (eraseAt 712 1324 example_editor))
     = Inr example_editor"
    by (simp add: erase_hit_example erase_miss_example erase_miss_again_example
        undo_twice_example)
  moreover have "active_paths example_editor = Some [[(0, 0), (100, 0), (100, 100)]]"
    by (simp add: active_paths_def js_nth_def example_editor_def)
  ultimately show ?thesis by blast
qed

lemma eraseAt_unchanged: "\<not> erase_applies s \<Longrightarrow> eraseAt x y s = s"
  by (auto simp add: erase_applies_def eraseAt_def js_nth_def split: option.splits if_splits)

lemma erase_applies_cases:
  assumes "erase_applies s"
  obtains lay area pths where "js_nth (layers s) (activeLayerIndex s) = Some lay"
    and "drawingArea s = Some area" and "lpaths lay = Some pths" and "pths \<noteq> []"
    and "\<not> activeLayerIndex s < 0"
proof -
  from assms obtain lay where l: "js_nth (layers s) (activeLayerIndex s) = Some lay"
    by (auto simp add: erase_applies_def split: option.splits)
  with assms obtain area where a: "drawingArea s = Some area"
    by (auto simp add: erase_applies_def split: option.splits)
  with assms l obtain pths where p: "lpaths lay = Some pths" "pths \<noteq> []"
    by (auto simp add: erase_applies_def split: option.splits)
  from l have "\<not> activeLayerIndex s < 0" by (auto simp add: js_nth_def split: if_splits)
  with l a p that show thesis by blast
qed

text \<open>One erase that applies: layer stays, the top of the stack is the old path set.\<close>

lemma eraseAt_applies_top:
  assumes "erase_applies s"
  shows "js_nth (layers (eraseAt x y s)) (activeLayerIndex (eraseAt x y s)) \<noteq> None"
    and "pathsHistory (eraseAt x y s) \<noteq> []"
    and "Some (last (pathsHistory (eraseAt x y s))) = active_paths s"
proof -
  from assms obtain lay area pths where l: "js_nth (layers s) (activeLayerIndex s) = Some lay"
    and a: "drawingArea s = Some area" and p: "lpaths lay = Some pths" and ne: "pths \<noteq> []"
    and idx: "\<not> activeLayerIndex s < 0"
    by (rule erase_applies_cases)
  define h where "h = (if length (pathsHistory s) = 0 \<or> last (pathsHistory s) \<noteq> pths
                  then (let pushed = pathsHistory s @ [pths]
                        in if length pushed > 20 then tl pushed else pushed)
                  else pathsHistory s)"
  have hist: "pathsHistory (eraseAt x y s) = h"
    using idx ne by (simp add: eraseAt_def l a p h_def Let_def)
  show "js_nth (layers (eraseAt x y s)) (activeLayerIndex (eraseAt x y s)) \<noteq> None"
    using idx ne js_nth_update [OF l] by (simp add: eraseAt_def l a p Let_def)
  have ap: "active_paths s = Some pths" by (simp add: active_paths_def l p)
  have tlne: "tl (pathsHistory s @ [pths]) \<noteq> []" if "length (pathsHistory s @ [pths]) > 20"
    using that by (cases "pathsHistory s") auto
  show "pathsHistory (eraseAt x y s) \<noteq> []"
    unfolding hist h_def using tlne by (auto simp add: Let_def)
  have "last (tl (pathsHistory s @ [pths])) = pths" if "length (pathsHistory s @ [pths]) > 20"
    using that tlne [OF that] by (simp add: last_tl)
  then have "last h = pths"
    unfolding h_def by (auto simp add: Let_def)
  then show "Some (last (pathsHistory (eraseAt x y s))) = active_paths s"
    by (simp add: hist ap)
qed

text \<open>An erase that applies and pushes moves every snapshot one place down.\<close>

lemma eraseAt_push_depth:
  assumes ap: "erase_applies s"
    and fresh: "pathsHistory s = [] \<or> Some (last (pathsHistory s)) \<noteq> active_paths s"
    and d: "undo_depth p n s" and n: "n < 20"
  shows "undo_depth p (Suc n) (eraseAt x y s)"
proof -
  from ap obtain lay area pths where l: "js_nth (layers s) (activeLayerIndex s) = Some lay"
    and a: "drawingArea s = Some area" and p: "lpaths lay = Some pths" and ne: "pths \<noteq> []"
    and idx: "\<not> activeLayerIndex s < 0"
    by (rule erase_applies_cases)
  have act: "active_paths s = Some pths" by (simp add: active_paths_def l p)
  let ?h = "pathsHistory s"
  from d have len: "1 \<le> n" "n \<le> length ?h" and at: "Some (?h ! (length ?h - n)) = p"
    by (simp_all add: undo_depth_def)
  from fresh act len have push: "length ?h = 0 \<or> last ?h \<noteq> pths" by auto
  from len have lt: "length ?h - n < length ?h" by arith
  define h' where "h' = (if length (?h @ [pths]) > 20 then tl (?h @ [pths]) else ?h @ [pths])"
  have hist: "pathsHistory (eraseAt x y s) = h'"
    using idx ne push by (simp add: eraseAt_def l a p h'_def Let_def)
  have "Suc n \<le> length h' \<and> h' ! (length h' - Suc n) = ?h ! (length ?h - n)"
  proof (cases "length (?h @ [pths]) > 20")
    case False
    then have h': "h' = ?h @ [pths]" by (simp add: h'_def)
    have "(?h @ [pths]) ! (length ?h - n) = ?h ! (length ?h - n)"
      using lt by (simp add: nth_append)
    with len show ?thesis by (simp add: h')
  next
    case True
    then have h': "h' = tl (?h @ [pths])" by (simp add: h'_def)
    have l': "length h' = length ?h" by (simp add: h')
    from True n have big: "Suc n \<le> length ?h" by simp
    have "h' ! (length ?h - Suc n) = (?h @ [pths]) ! Suc (length ?h - Suc n)"
      unfolding h' using big by (simp add: nth_tl)
    also have "Suc (length ?h - Suc n) = length ?h - n" using big by simp
    also have "(?h @ [pths]) ! (length ?h - n) = ?h ! (length ?h - n)"
      using lt by (simp add: nth_append)
    finally show ?thesis using big by (simp add: l')
  qed
  moreover have "js_nth (layers (eraseAt x y s)) (activeLayerIndex (eraseAt x y s)) \<noteq> None"
    using ap by (rule eraseAt_applies_top(1))
  ultimately show ?thesis
    using at by (simp add: undo_depth_def hist)
qed

lemma erases_tracked_applies: "erases_tracked (c # cs) s \<Longrightarrow> erase_applies s"
proof (cases cs)
  case Nil
  assume "erases_tracked (c # cs) s"
  with Nil show ?thesis by simp
next
  case (Cons c' cs')
  assume "erases_tracked (c # cs) s"
  with Cons have "active_paths (eraseAt (fst c) (snd c) s) \<noteq> active_paths s" by simp
  then show ?thesis
  proof (rule contrapos_np)
    assume "\<not> erase_applies s"
    then show "active_paths (eraseAt (fst c) (snd c) s) = active_paths s"
      by (simp add: eraseAt_unchanged)
  qed
qed

lemma erases_tracked_fresh:
  "erases_tracked (c # c' # cs) s \<Longrightarrow>
     Some (last (pathsHistory (eraseAt (fst c) (snd c) s)))
       \<noteq> active_paths (eraseAt (fst c) (snd c) s)"
  using erases_tracked_applies [of c "c' # cs" s]
    eraseAt_applies_top(3) [of s "fst c" "snd c"] by auto

lemma undo_depth_erase_all:
  "undo_depth p n s \<Longrightarrow> erases_tracked cs s \<Longrightarrow>
   cs = [] \<or> pathsHistory s = [] \<or> Some (last (pathsHistory s)) \<noteq> active_paths s \<Longrightarrow>
   n + length cs \<le> 20 \<Longrightarrow> undo_depth p (n + length cs) (erase_all cs s)"
proof (induction cs arbitrary: n s)
  case Nil
  then show ?case by simp
next
  case (Cons c cs)
  let ?s = "eraseAt (fst c) (snd c) s"
  from Cons.prems(2) have ap: "erase_applies s" by (rule erases_tracked_applies)
  from Cons.prems(3) have fresh: "pathsHistory s = [] \<or> Some (last (pathsHistory s)) \<noteq> active_paths s"
    by simp
  from Cons.prems(4) have "n < 20" by simp
  with ap fresh Cons.prems(1) have d: "undo_depth p (Suc n) ?s"
    by (intro eraseAt_push_depth)
  have t: "erases_tracked cs ?s"
    using Cons.prems(2) by (cases cs) simp_all
  have f: "cs = [] \<or> pathsHistory ?s = [] \<or> Some (last (pathsHistory ?s)) \<noteq> active_paths ?s"
  proof (cases cs)
    case Nil then show ?thesis by simp
  next
    case (Cons c' cs')
    with Cons.prems(2) show ?thesis using erases_tracked_fresh [of c c' cs' s] by simp
  qed
  from Cons.IH [OF d t f] Cons.prems(4) show ?case by simp
qed

lemma undo_depth_first:
  assumes "erase_applies s"
  shows "undo_depth (active_paths s) 1 (eraseAt x y s)"
proof -
  let ?h = "pathsHistory (eraseAt x y s)"
  from eraseAt_applies_top [OF assms, of x y]
  have a: "js_nth (layers (eraseAt x y s)) (activeLayerIndex (eraseAt x y s)) \<noteq> None"
    and b: "?h \<noteq> []" and c: "Some (last ?h) = active_paths s" by simp_all
  from b have "?h ! (length ?h - 1) = last ?h" by (simp add: last_conv_nth)
  with a b c show ?thesis
    by (cases ?h) (simp_all add: undo_depth_def)
qed

lemma undo_times_depth:
  "undo_depth p n s \<Longrightarrow> \<exists>s'. undo_times n s = Inr s' \<and> active_paths s' = p"
proof (induction n arbitrary: s)
  case 0
  then show ?case by (simp add: undo_depth_def)
next
  case (Suc n)
  let ?h = "pathsHistory s"
  from Suc.prems obtain lay where lay: "js_nth (layers s) (activeLayerIndex s) = Some lay"
    and len: "Suc n \<le> length ?h" and at: "Some (?h ! (length ?h - Suc n)) = p"
    by (auto simp add: undo_depth_def)
  then have idx: "0 \<le> activeLayerIndex s" by (auto simp add: js_nth_def split: if_splits)
  from len have ne: "?h \<noteq> []" by auto
  define s' where "s' = s \<lparr> processedPaths := Some (last ?h),
                         pathsHistory := butlast ?h,
                         layers := (layers s) [nat (activeLayerIndex s) :=
                                      lay \<lparr> lpaths := Some (last ?h) \<rparr>] \<rparr>"
  have u: "undoErase s = Inr s'"
    using ne idx by (simp add: undoErase_def lay s'_def Let_def)
  have nth: "js_nth (layers s') (activeLayerIndex s') = Some (lay \<lparr> lpaths := Some (last ?h) \<rparr>)"
    using js_nth_update [OF lay] by (simp add: s'_def)
  have ap: "active_paths s' = Some (last ?h)"
    by (simp add: active_paths_def nth)
  show ?case
  proof (cases n)
    case 0
    with len at ne have "Some (last ?h) = p" by (simp add: last_conv_nth)
    with u ap 0 show ?thesis by (simp add: bind_result_def)
  next
    case (Suc m)
    have "butlast ?h ! (length ?h - Suc n) = ?h ! (length ?h - Suc n)"
      using len Suc by (simp add: nth_butlast)
    moreover have "length (butlast ?h) - n = length ?h - Suc n" by simp
    ultimately have "undo_depth p n s'"
      using len Suc at nth by (simp add: undo_depth_def s'_def)
    from Suc.IH [OF this] u show ?thesis by (simp add: bind_result_def)
  qed
qed

lemma tracked_erase_then_undo:
  assumes "erases_tracked cs s" and "length cs \<le> 20"
  shows "\<exists>s'. undo_times (length cs) (erase_all cs s) = Inr s' \<and> active_paths s' = active_paths s"
proof (cases cs)
  case Nil
  then show ?thesis by simp
next
  case (Cons c rest)
  let ?s = "eraseAt (fst c) (snd c) s"
  from assms(1) Cons have ap: "erase_applies s" using erases_tracked_applies by blast
  then have d: "undo_depth (active_paths s) 1 ?s" by (rule undo_depth_first)
  have t: "erases_tracked rest ?s" using assms(1) Cons by (cases rest) simp_all
  have f: "rest = [] \<or> pathsHistory ?s = [] \<or> Some (last (pathsHistory ?s)) \<noteq> active_paths ?s"
  proof (cases rest)
    case Nil then show ?thesis by simp
  next
    case (Cons c' cs')
    with assms(1) \<open>cs = c # rest\<close> show ?thesis using erases_tracked_fresh [of c c' cs' s] by simp
  qed
  from undo_depth_erase_all [OF d t f] assms(2) Cons
  have "undo_depth (active_paths s) (length cs) (erase_all cs s)" by simp
  then show ?thesis by (rule undo_times_depth)
qed

lemma undo_times_empty: "pathsHistory s = [] \<Longrightarrow> undo_times n s = Inr s"
  by (induction n) (simp_all add: undoErase_def bind_result_def)

lemma erase_all_no_layer:
  "js_nth (layers s) (activeLayerIndex s) = None \<Longrightarrow> erase_all cs s = s"
proof (induction cs)
  case Nil show ?case by simp
next
  case (Cons c cs)
  from Cons.prems have "\<not> erase_applies s" by (simp add: erase_applies_def)
  then have "eraseAt (fst c) (snd c) s = s" by (rule eraseAt_unchanged)
  with Cons show ?case by simp
qed

lemma empty_stack_erase_then_undo:
  assumes "pathsHistory s = []" and "length cs \<le> 20"
  shows "\<exists>s'. undo_times (length cs) (erase_all cs s) = Inr s' \<and> active_paths s' = active_paths s"
proof (cases "js_nth (layers s) (activeLayerIndex s) = None")
  case True
  then show ?thesis using assms(1) by (simp add: erase_all_no_layer undo_times_empty)
next
  case False
  then show ?thesis using assms by (intro erase_then_undo) simp_all
qed

lemma eraseAt_history:
  assumes "js_nth (layers s) (activeLayerIndex s) = Some lay"
    and "drawingArea s = Some area" and "lpaths lay = Some pths" and "pths \<noteq> []"
  shows "pathsHistory (eraseAt x y s) =
           (if pathsHistory s = [] \<or> last (pathsHistory s) \<noteq> pths
            then (if length (pathsHistory s) + 1 > 20 then tl (pathsHistory s @ [pths])
                  else pathsHistory s @ [pths])
            else pathsHistory s)"
proof -
  from assms(1) have "\<not> activeLayerIndex s < 0"
    by (auto simp add: js_nth_def split: if_splits)
  then show ?thesis
    using assms by (simp add: eraseAt_def Let_def)
qed

lemma eraseAt_history_bounded:
  "length (pathsHistory s) \<le> 20 \<Longrightarrow> length (pathsHistory (eraseAt x y s)) \<le> 20"
  by (auto simp add: eraseAt_def Let_def split: option.splits)

text \<open>
  C5, amended. For every \<open>k \<le> 20\<close>, after \<open>k\<close> erase operations and \<open>k\<close> undo
  operations the path set of the active layer equals its state before the erases,
  provided the undo stack is empty before the first erase, or each of the erases but the
  last removes at least one point and the last one finds an active layer with paths and
  a detected area. An erase that reaches the filter pushes the current path set onto
  the stack exactly when the stack is empty or its top differs from the path set, the
  oldest snapshot being dropped beyond 20, so that the stack never holds more than 20.
\<close>

theorem erase_undo_restores:
  "((pathsHistory s = [] \<or> erases_tracked cs s) \<and> length cs \<le> 20 \<longrightarrow>
      (\<exists>s'. undo_times (length cs) (erase_all cs s) = Inr s' \<and>
            active_paths s' = active_paths s)) \<and>
   (js_nth (layers s) (activeLayerIndex s) = Some lay \<and> drawingArea s = Some area \<and>
    lpaths lay = Some pths \<and> pths \<noteq> [] \<longrightarrow>
      pathsHistory (eraseAt x y s) =
        (if pathsHistory s = [] \<or> last (pathsHistory s) \<noteq> pths
         then (if length (pathsHistory s) + 1 > 20 then tl (pathsHistory s @ [pths])
               else pathsHistory s @ [pths])
         else pathsHistory s)) \<and>
   (length (pathsHistory s) \<le> 20 \<longrightarrow> length (pathsHistory (eraseAt x y s)) \<le> 20)"
  using empty_stack_erase_then_undo [of s cs] tracked_erase_then_undo [of cs s]
    eraseAt_history [of s lay area pths x y] eraseAt_history_bounded [of s x y]
  by blast

theorem erase_undo_restores_witness:
  "pathsHistory example_editor = [] \<and>
   (\<exists>s'. undo_times 2 (erase_all [(712, 1324), (0, 0)] example_editor) = Inr s' \<and>
         active_paths s' = Some [[(0, 0), (100, 0), (100, 100)]]) \<and>
   pathsHistory (eraseAt 712 1324 example_editor) = [[[(0, 0), (100, 0), (100, 100)]]] \<and>
   erases_tracked [(0, 0)] (eraseAt 712 1324 example_editor) \<and>
   (\<exists>s'. undo_times 1 (erase_all [(0, 0)] (eraseAt 712 1324 example_editor)) = Inr s' \<and>
         active_paths s' = Some [[(0, 0), (100, 0)]])"
proof -
  have a: "js_nth (layers example_editor) (activeLayerIndex example_editor)
             = Some \<lparr> lpaths = Some [[(0, 0), (100, 0), (100, 100)]] \<rparr>"
    by (simp add: js_nth_def example_editor_def)
  have h: "pathsHistory example_editor = []"
    by (simp add: example_editor_def)
  have d: "drawingArea example_editor = Some scenario_area"
    by (simp add: example_editor_def)
  have p: "active_paths example_editor = Some [[(0, 0), (100, 0), (100, 100)]]"
    by (simp add: active_paths_def a)
  have k: "length [(712 :: real, 1324 :: real), (0, 0)] = 2" by simp
  note inst = erase_undo_restores [of example_editor "[(712, 1324), (0, 0)]"
      "\<lparr> lpaths = Some [[(0, 0), (100, 0), (100, 100)]] \<rparr>" scenario_area
      "[[(0, 0), (100, 0), (100, 100)]]" 712 1324]
  from inst h have "\<exists>s'. undo_times (length [(712 :: real, 1324 :: real), (0, 0)])
            (erase_all [(712, 1324), (0, 0)] example_editor) = Inr s' \<and>
         active_paths s' = active_paths example_editor"
    by simp
  then have u: "\<exists>s'. undo_times 2 (erase_all [(712, 1324), (0, 0)] example_editor) = Inr s' \<and>
         active_paths s' = Some [[(0, 0), (100, 0), (100, 100)]]"
    by (simp only: k p)
  from inst a h d have e: "pathsHistory (eraseAt 712 1324 example_editor)
                            = [[[(0, 0), (100, 0), (100, 100)]]]"
    by simp
  let ?s = "eraseAt 712 1324 example_editor"
  have t: "erases_tracked [(0, 0)] ?s"
    unfolding erase_hit_example
    by (simp add: erase_applies_def js_nth_def example_editor_def)
  have q: "active_paths ?s = Some [[(0, 0), (100, 0)]]"
    unfolding erase_hit_example by (simp add: active_paths_def js_nth_def example_editor_def)
  have k1: "length [(0 :: real, 0 :: real)] = 1" by simp
  from erase_undo_restores [of ?s "[(0, 0)]"] t
  have "\<exists>s'. undo_times (length [(0 :: real, 0 :: real)]) (erase_all [(0, 0)] ?s) = Inr s' \<and>
         active_paths s' = active_paths ?s"
    by simp
  then have u1: "\<exists>s'. undo_times 1 (erase_all [(0, 0)] ?s) = Inr s' \<and>
         active_paths s' = Some [[(0, 0), (100, 0)]]"
    by (simp only: k1 q)
  from h u e t u1 show ?thesis by blast
qed

end
